theory Spec2Isabelle
  imports Complex_Main
begin

section \<open>Python values, exceptions and frames\<close>

text \<open>
  The exceptions the tracer module can meet. \<open>except Exception\<close> catches every class
  derived from \<open>Exception\<close>; \<open>KeyboardInterrupt\<close>, \<open>SystemExit\<close> and \<open>GeneratorExit\<close>
  derive from \<open>BaseException\<close> only and pass through such a handler.
  \<open>OtherException\<close> stands for any other class derived from \<open>Exception\<close>, with its message.
\<close>

datatype exn =
    IndexError
  | KeyError string
  | TypeError
  | AttributeError
  | NotImplementedError
  | OtherException string
  | KeyboardInterrupt
  | SystemExit
  | GeneratorExit

fun is_Exception :: "exn \<Rightarrow> bool" where
  "is_Exception KeyboardInterrupt = False"
| "is_Exception SystemExit = False"
| "is_Exception GeneratorExit = False"
| "is_Exception _ = True"

text \<open>
  The values a tracing context (a Python dict with string keys) holds. A timezone-aware UTC
  \<open>datetime\<close> is its number of microseconds since the epoch, a \<open>timedelta\<close> a number of
  microseconds: the difference of two aware datetimes is exact. The \<open>data\<close> dictionary maps
  the caller's keys to the caller's values, of any type \<open>'v\<close>.
\<close>

datatype 'v pyval =
    PyDatetime int
  | PyTimedelta int
  | PyStr string
  | PyFloat real
  | PyInt int
  | PyDict "string \<rightharpoonup> 'v"

type_synonym 'v payload = "string \<rightharpoonup> 'v pyval"

text \<open>\<open>timedelta.total_seconds()\<close>: the microseconds divided by \<open>10**6\<close> (the rounding of
  the quotient to a double is not modelled).\<close>

definition total_seconds :: "int \<Rightarrow> real" where
  "total_seconds td = real_of_int td / 1000000"

text \<open>A frame record of \<open>inspect.getouterframes\<close>: file name, current line, function name.\<close>

record frame =
  f_filename :: string
  f_line :: int
  f_name :: string

text \<open>
  What a call of \<open>__enter__\<close> or \<open>__exit__\<close> observes of its surroundings: the reading of
  the clock (\<open>Utils.now()\<close>), the name of the current thread, the frame the call was made
  from and that frame's own callers, innermost first.
\<close>

record ctx =
  ctx_now :: int
  ctx_thread :: string
  ctx_caller :: frame
  ctx_outer :: "frame list"

section \<open>The console tracer\<close>

text \<open>
  Standard output as the lines printed so far and the number of flushes, the errors handed to
  \<open>ConsoleTracer._logger\<close>, and whatever state other shippers keep (\<open>custom\<close>).
\<close>

record 'u world =
  stdout :: "string list"
  flushes :: nat
  console_logger :: "exn list"
  custom :: 'u

text \<open>
  A shipper is an object with a \<open>trace(payload)\<close> method. The call gets a reference to the
  payload dict: it may change the dict and the world, and it returns or raises. The payload
  of the result is the state of that same dict after the call.
\<close>

type_synonym ('u, 'v) shipper =
  "'v payload \<Rightarrow> 'u world \<Rightarrow> exn option \<times> 'v payload \<times> 'u world"

text \<open>
  One call of a shipper's \<open>trace\<close> as the run records it: the payload as the shipper
  received it, what the call raised, and the payload as the call left it.
\<close>

record 'v call =
  received :: "'v payload"
  raised :: "exn option"
  left_as :: "'v payload"

text \<open>\<open>TracerInterface.trace\<close>: raises \<open>NotImplementedError\<close>.\<close>

definition TracerInterface_trace :: "('u, 'v) shipper" where
  "TracerInterface_trace payload w = (Some NotImplementedError, payload, w)"

text \<open>
  \<open>ConsoleTracer.trace(payload=None)\<close>. \<open>json.dumps\<close> is the library's, a parameter: it
  returns the text or raises. Writing to standard output is taken to succeed.
\<close>

definition ConsoleTracer_trace ::
  "('v payload \<Rightarrow> exn + string) \<Rightarrow> 'v payload option \<Rightarrow> 'u world \<Rightarrow> exn option \<times> 'u world" where
  "ConsoleTracer_trace json_dumps payload w =
     (case payload of
        None \<Rightarrow> (None, w)
      | Some p \<Rightarrow>
          (case json_dumps p of
             Inr text \<Rightarrow> (None, w\<lparr>stdout := stdout w @ [text], flushes := Suc (flushes w)\<rparr>)
           | Inl e \<Rightarrow>
               if is_Exception e
               then (None, w\<lparr>console_logger := console_logger w @ [e]\<rparr>)
               else (Some e, w)))"

text \<open>A \<open>ConsoleTracer\<close> object in a list of shippers: it leaves the payload as it is.\<close>

definition ConsoleTracer :: "('v payload \<Rightarrow> exn + string) \<Rightarrow> ('u, 'v) shipper" where
  "ConsoleTracer json_dumps p w =
     (case ConsoleTracer_trace json_dumps (Some p) w of (r, w') \<Rightarrow> (r, p, w'))"

section \<open>The tracer context manager\<close>

text \<open>
  A \<open>TracerContextManager\<close> with the world it acts on. \<open>context_stack\<close> is a Python list
  used as a stack: \<open>append\<close> adds at the end, \<open>pop()\<close> and \<open>[-1]\<close> take the last element.
  \<open>logger\<close> holds the errors handed to the tracer's own \<open>_logger.error\<close>, a call that is
  taken to succeed. \<open>trace_log\<close> is a record of the run, not a field of the object: one entry for each call of
  \<open>_trace\<close>, the payload it was called with and the calls of the shippers it made.
\<close>

record ('u, 'v) state =
  tracer_shippers :: "('u, 'v) shipper list"
  context_stack :: "'v payload list"
  pid :: int
  process_name :: string
  logger :: "exn list"
  world :: "'u world"
  trace_log :: "('v payload \<times> 'v call list) list"

abbreviation data_key :: string where "data_key \<equiv> ''data''"
abbreviation start_time_key :: string where "start_time_key \<equiv> ''start_time''"
abbreviation duration_key :: string where "duration_key \<equiv> ''duration''"
abbreviation file_key :: string where "file_key \<equiv> ''file''"
abbreviation line_key :: string where "line_key \<equiv> ''line''"
abbreviation function_key :: string where "function_key \<equiv> ''function_name''"
abbreviation thread_key :: string where "thread_key \<equiv> ''thread''"
abbreviation pid_key :: string where "pid_key \<equiv> ''pid''"
abbreviation process_name_key :: string where "process_name_key \<equiv> ''process_name''"

text \<open>\<open>str.split(delimiter)\<close> for a one-character delimiter, and \<open>' '.join\<close>.\<close>

fun split :: "char \<Rightarrow> string \<Rightarrow> string list" where
  "split d [] = [[]]"
| "split d (c # cs) =
     (if c = d then [] # split d cs
      else (case split d cs of [] \<Rightarrow> [[c]] | x # xs \<Rightarrow> (c # x) # xs))"

fun join :: "string \<Rightarrow> string list \<Rightarrow> string" where
  "join sep [] = []"
| "join sep [x] = x"
| "join sep (x # y # ys) = x @ sep @ join sep (y # ys)"

text \<open>
  \<open>__init__(tracer_shippers=None)\<close>: \<open>ospid\<close> is \<open>os.getpid()\<close>, \<open>cmdline\<close> what
  \<open>subprocess.check_output\<close> of \<open>/proc/<pid>/cmdline\<close> returned or raised. The diagnostic
  logger starts with nothing logged.
\<close>

definition init ::
  "('v payload \<Rightarrow> exn + string) \<Rightarrow> ('u, 'v) shipper list option \<Rightarrow> int \<Rightarrow> exn + string \<Rightarrow>
   'u world \<Rightarrow> exn + ('u, 'v) state" where
  "init json_dumps shippers ospid cmdline w =
     (let shs = (case shippers of None \<Rightarrow> [ConsoleTracer json_dumps] | Some l \<Rightarrow> l) in
      case cmdline of
        Inr output \<Rightarrow>
          Inr \<lparr>tracer_shippers = shs, context_stack = [], pid = ospid,
               process_name = join '' '' (butlast (split (CHR 0x00) output)),
               logger = [], world = w, trace_log = []\<rparr>
      | Inl e \<Rightarrow>
          if is_Exception e
          then Inr \<lparr>tracer_shippers = shs, context_stack = [], pid = ospid,
                    process_name = [], logger = [e], world = w, trace_log = []\<rparr>
          else Inl e)"

text \<open>The property \<open>current_data\<close>: \<open>self._context_stack[-1][self._data_key]\<close>.\<close>

definition current_data :: "('u, 'v) state \<Rightarrow> exn + 'v pyval" where
  "current_data s =
     (case context_stack s of
        [] \<Rightarrow> Inl IndexError
      | _ # _ \<Rightarrow>
          (case last (context_stack s) data_key of
             None \<Rightarrow> Inl (KeyError data_key)
           | Some v \<Rightarrow> Inr v))"

text \<open>
  \<open>t.current_data.update(kvs)\<close>, the caller's way of writing: the dict that \<open>current_data\<close>
  returns is the one inside the top context, so the update is seen there.
\<close>

definition update_current_data :: "(string \<rightharpoonup> 'v) \<Rightarrow> ('u, 'v) state \<Rightarrow> exn + ('u, 'v) state" where
  "update_current_data kvs s =
     (case current_data s of
        Inl e \<Rightarrow> Inl e
      | Inr (PyDict d) \<Rightarrow>
          Inr (s\<lparr>context_stack :=
                   butlast (context_stack s) @ [(last (context_stack s))(data_key \<mapsto> PyDict (d ++ kvs))]\<rparr>)
      | Inr _ \<Rightarrow> Inl AttributeError)"

text \<open>
  \<open>_trace\<close>'s loop over the shippers: an \<open>Exception\<close> a shipper raises is logged and the loop
  goes on; any other exception leaves the loop. \<open>lg\<close> is the tracer's logger, \<open>cs\<close> the
  calls made so far.
\<close>

fun trace_loop ::
  "('u, 'v) shipper list \<Rightarrow> 'v payload \<Rightarrow> 'u world \<Rightarrow> exn list \<Rightarrow> 'v call list \<Rightarrow>
   exn option \<times> 'v payload \<times> 'u world \<times> exn list \<times> 'v call list" where
  "trace_loop [] p w lg cs = (None, p, w, lg, cs)"
| "trace_loop (trace_shipper # rest) p w lg cs =
     (case trace_shipper p w of
        (None, p', w') \<Rightarrow>
          trace_loop rest p' w' lg (cs @ [\<lparr>received = p, raised = None, left_as = p'\<rparr>])
      | (Some e, p', w') \<Rightarrow>
          if is_Exception e
          then trace_loop rest p' w' (lg @ [e])
                 (cs @ [\<lparr>received = p, raised = Some e, left_as = p'\<rparr>])
          else (Some e, p', w', lg, cs @ [\<lparr>received = p, raised = Some e, left_as = p'\<rparr>]))"

text \<open>\<open>_trace(payload=None)\<close>: without a payload, the top of the stack is shipped.\<close>

definition trace :: "'v payload option \<Rightarrow> ('u, 'v) state \<Rightarrow> exn option \<times> ('u, 'v) state" where
  "trace payload s =
     (case payload of
        None \<Rightarrow>
          (case context_stack s of
             [] \<Rightarrow> (Some IndexError, s)
           | _ # _ \<Rightarrow>
               (case trace_loop (tracer_shippers s) (last (context_stack s)) (world s) (logger s) [] of
                  (r, p', w', lg, cs) \<Rightarrow>
                    (r, s\<lparr>context_stack := butlast (context_stack s) @ [p'], world := w',
                           logger := lg,
                           trace_log := trace_log s @ [(last (context_stack s), cs)]\<rparr>)))
      | Some p \<Rightarrow>
          (case trace_loop (tracer_shippers s) p (world s) (logger s) [] of
             (r, p', w', lg, cs) \<Rightarrow>
               (r, s\<lparr>world := w', logger := lg, trace_log := trace_log s @ [(p, cs)]\<rparr>)))"

text \<open>
  The frames of \<open>_enrich\<close> and \<open>__exit__\<close> themselves, as \<open>inspect.getouterframes\<close> lists
  them while \<open>_enrich\<close> runs.
\<close>

definition tracer_file :: string where
  "tracer_file = ''structuredlogger/tracer.py''"

definition enrich_frame :: frame where
  "enrich_frame = \<lparr>f_filename = tracer_file, f_line = 156, f_name = ''_enrich''\<rparr>"

definition exit_frame :: frame where
  "exit_frame = \<lparr>f_filename = tracer_file, f_line = 204, f_name = ''__exit__''\<rparr>"

text \<open>
  \<open>_enrich(payload=None)\<close>. \<open>callers\<close> are the frames of the callers of \<open>_enrich\<close>,
  innermost first, so \<open>inspect.getouterframes(inspect.currentframe())\<close> is the frame of
  \<open>_enrich\<close> followed by them. \<open>tnow\<close> is the reading of \<open>Utils.now()\<close>; a datetime
  minus a datetime is a timedelta, a datetime minus a timedelta a datetime, and Python
  subtracts nothing else from a datetime. The dict is changed in place: the result is its
  new state.
\<close>

definition enrich ::
  "'v payload option \<Rightarrow> frame list \<Rightarrow> int \<Rightarrow> string \<Rightarrow> ('u, 'v) state \<Rightarrow> exn + 'v payload option" where
  "enrich payload callers tnow thread_name s =
     (case payload of
        None \<Rightarrow> Inr None
      | Some p \<Rightarrow>
          (let outer_frames = enrich_frame # callers in
           if \<not> 2 < length outer_frames then Inl IndexError
           else
             (let fr = outer_frames ! 2 in
              case p start_time_key of
                None \<Rightarrow> Inl (KeyError start_time_key)
              | Some (PyDatetime t0) \<Rightarrow>
                  Inr (Some (p(file_key \<mapsto> PyStr (f_filename fr),
                               line_key \<mapsto> PyInt (f_line fr),
                               function_key \<mapsto> PyStr (f_name fr),
                               thread_key \<mapsto> PyStr thread_name,
                               pid_key \<mapsto> PyInt (pid s),
                               process_name_key \<mapsto> PyStr (process_name s),
                               duration_key \<mapsto> PyTimedelta (tnow - t0))))
              | Some (PyTimedelta td) \<Rightarrow>
                  Inr (Some (p(file_key \<mapsto> PyStr (f_filename fr),
                               line_key \<mapsto> PyInt (f_line fr),
                               function_key \<mapsto> PyStr (f_name fr),
                               thread_key \<mapsto> PyStr thread_name,
                               pid_key \<mapsto> PyInt (pid s),
                               process_name_key \<mapsto> PyStr (process_name s),
                               duration_key \<mapsto> PyDatetime (tnow - td))))
              | Some _ \<Rightarrow> Inl TypeError)))"

text \<open>
  \<open>_convert(payload=None)\<close>. \<open>isoformat\<close> is \<open>datetime.isoformat\<close>, the library's, a
  parameter.
\<close>

definition convert :: "(int \<Rightarrow> string) \<Rightarrow> 'v payload option \<Rightarrow> exn + 'v payload option" where
  "convert isoformat payload =
     (case payload of
        None \<Rightarrow> Inr None
      | Some p \<Rightarrow>
          (case p start_time_key of
             None \<Rightarrow> Inl (KeyError start_time_key)
           | Some (PyDatetime t) \<Rightarrow>
               (let p1 = p(start_time_key \<mapsto> PyStr (isoformat t)) in
                case p1 duration_key of
                  None \<Rightarrow> Inl (KeyError duration_key)
                | Some (PyTimedelta d) \<Rightarrow> Inr (Some (p1(duration_key \<mapsto> PyFloat (total_seconds d))))
                | Some _ \<Rightarrow> Inl AttributeError)
           | Some _ \<Rightarrow> Inl AttributeError))"

text \<open>\<open>__enter__\<close>: pushes a new context; it reads the clock and nothing else.\<close>

definition enter :: "ctx \<Rightarrow> ('u, 'v) state \<Rightarrow> ('u, 'v) state" where
  "enter c s =
     s\<lparr>context_stack :=
         context_stack s @ [[start_time_key \<mapsto> PyDatetime (ctx_now c), data_key \<mapsto> PyDict Map.empty]]\<rparr>"

text \<open>
  \<open>__exit__(exc_type, exc_value, exc_traceback)\<close>, called from the frame \<open>ctx_caller c\<close>.
  \<open>exc\<close> is the exception the block raised, if any. The result is the exception that leaves
  \<open>__exit__\<close>, or the value it returns.
\<close>

definition exit ::
  "(int \<Rightarrow> string) \<Rightarrow> exn option \<Rightarrow> ctx \<Rightarrow> ('u, 'v) state \<Rightarrow> (exn + bool) \<times> ('u, 'v) state" where
  "exit isoformat exc c s =
     (case context_stack s of
        [] \<Rightarrow> (Inl IndexError, s)
      | _ # _ \<Rightarrow>
          (let payload = last (context_stack s);
               s1 = s\<lparr>context_stack := butlast (context_stack s)\<rparr>
           in case enrich (Some payload) (exit_frame # ctx_caller c # ctx_outer c)
                     (ctx_now c) (ctx_thread c) s1 of
                Inl e \<Rightarrow> (Inl e, s1)
              | Inr enriched \<Rightarrow>
                  (case convert isoformat enriched of
                     Inl e \<Rightarrow> (Inl e, s1)
                   | Inr converted \<Rightarrow>
                       (case trace converted s1 of
                          (Some e, s2) \<Rightarrow> (Inl e, s2)
                        | (None, s2) \<Rightarrow> (Inr False, s2)))))"

section \<open>Programs that use the tracer\<close>

text \<open>
  Python's \<open>with t: body\<close>, as the example script uses the tracer: \<open>__enter__\<close>, then the
  body, then \<open>__exit__\<close> with the exception the body raised, if any. An exception that
  \<open>__exit__\<close> raises leaves the statement; otherwise the body's exception is raised again
  unless \<open>__exit__\<close> returned a true value. \<open>co\<close> and \<open>cc\<close> are what the two calls observe.
\<close>

definition with_stmt ::
  "(int \<Rightarrow> string) \<Rightarrow> ctx \<Rightarrow> ctx \<Rightarrow> (('u, 'v) state \<Rightarrow> exn option \<times> ('u, 'v) state) \<Rightarrow>
   ('u, 'v) state \<Rightarrow> exn option \<times> ('u, 'v) state" where
  "with_stmt isoformat co cc body s =
     (case body (enter co s) of
        (r, s1) \<Rightarrow>
          (case exit isoformat r cc s1 of
             (Inl e, s2) \<Rightarrow> (Some e, s2)
           | (Inr suppress, s2) \<Rightarrow> (if suppress then None else r, s2)))"

text \<open>A run of statements \<open>t.current_data.update(kvs)\<close>: it stops at the first that raises.\<close>

fun updates :: "(string \<rightharpoonup> 'v) list \<Rightarrow> ('u, 'v) state \<Rightarrow> exn option \<times> ('u, 'v) state" where
  "updates [] s = (None, s)"
| "updates (kvs # rest) s =
     (case update_current_data kvs s of
        Inl e \<Rightarrow> (Some e, s)
      | Inr s' \<Rightarrow> updates rest s')"

text \<open>
  One scope of a nest of \<open>with\<close> blocks, as in the example script's \<open>test()\<close>: what the
  \<open>__enter__\<close> observes, the updates written before the inner block, what the \<open>__exit__\<close>
  observes, and the updates written after the inner block.
\<close>

record 'v scope =
  open_ctx :: ctx
  pre :: "(string \<rightharpoonup> 'v) list"
  close_ctx :: ctx
  post :: "(string \<rightharpoonup> 'v) list"

text \<open>
  Nested \<open>with t:\<close> blocks on one tracer, outermost scope first:
  \<^verbatim>\<open>with t: <pre updates>; with t: ...; <post updates>\<close>.
\<close>

fun nested ::
  "(int \<Rightarrow> string) \<Rightarrow> 'v scope list \<Rightarrow> ('u, 'v) state \<Rightarrow> exn option \<times> ('u, 'v) state" where
  "nested isoformat [] s = (None, s)"
| "nested isoformat (sc # inner) s =
     (case (case updates (pre sc) (enter (open_ctx sc) s) of
              (Some e, s1) \<Rightarrow> (Some e, s1)
            | (None, s1) \<Rightarrow>
                (case nested isoformat inner s1 of
                   (Some e, s2) \<Rightarrow> (Some e, s2)
                 | (None, s2) \<Rightarrow> updates (post sc) s2)) of
        (r, s3) \<Rightarrow>
          (case exit isoformat r (close_ctx sc) s3 of
             (Inl e, s4) \<Rightarrow> (Some e, s4)
           | (Inr suppress, s4) \<Rightarrow> (if suppress then None else r, s4)))"

text \<open>The dict that a run of \<open>update\<close> calls builds from an empty one.\<close>

definition written :: "(string \<rightharpoonup> 'v) list \<Rightarrow> (string \<rightharpoonup> 'v)" where
  "written ws = foldl (++) Map.empty ws"

text \<open>
  The dict that the close of a scope is expected to hand to the shippers, on a tracer with the
  cached process id \<open>ospid\<close> and process name \<open>pname\<close>: the nine reserved keys, the start time
  formatted, the duration in seconds, the call site and thread that the close observes, and
  under \<open>data\<close> what the scope's updates wrote.
\<close>

definition expected_record :: "(int \<Rightarrow> string) \<Rightarrow> int \<Rightarrow> string \<Rightarrow> 'v scope \<Rightarrow> 'v payload" where
  "expected_record isoformat ospid pname sc =
     [start_time_key \<mapsto> PyStr (isoformat (ctx_now (open_ctx sc))),
      data_key \<mapsto> PyDict (written (pre sc @ post sc)),
      file_key \<mapsto> PyStr (f_filename (ctx_caller (close_ctx sc))),
      line_key \<mapsto> PyInt (f_line (ctx_caller (close_ctx sc))),
      function_key \<mapsto> PyStr (f_name (ctx_caller (close_ctx sc))),
      thread_key \<mapsto> PyStr (ctx_thread (close_ctx sc)),
      pid_key \<mapsto> PyInt ospid,
      process_name_key \<mapsto> PyStr pname,
      duration_key \<mapsto> PyFloat (total_seconds (ctx_now (close_ctx sc) - ctx_now (open_ctx sc)))]"

text \<open>The keys that \<open>TracerContextManager\<close> reserves.\<close>

definition reserved_keys :: "string set" where
  "reserved_keys = {data_key, start_time_key, duration_key, file_key, line_key, function_key,
                    thread_key, pid_key, process_name_key}"

text \<open>
  A context as \<open>__enter__\<close> makes it and \<open>current_data.update\<close> changes it: a start time
  and a \<open>data\<close> dict, nothing else.
\<close>

definition open_context :: "'v payload \<Rightarrow> bool" where
  "open_context p \<longleftrightarrow> (\<exists>t d. p = [start_time_key \<mapsto> PyDatetime t, data_key \<mapsto> PyDict d])"

text \<open>A shipper whose \<open>trace\<close> raises nothing that \<open>except Exception\<close> lets through.\<close>

definition raises_only_Exception :: "('u, 'v) shipper \<Rightarrow> bool" where
  "raises_only_Exception sh \<longleftrightarrow> (\<forall>p w e. fst (sh p w) = Some e \<longrightarrow> is_Exception e)"

text \<open>
  A dispatch of the dict \<open>r\<close> that reached every shipper of the list \<open>shs\<close>: there is one
  call for each shipper, call \<open>i\<close> is a call of shipper \<open>i\<close> (what it raised and how it left
  the dict are what that shipper does with the dict it received), the first call received
  \<open>r\<close> and each later call received the dict as the call before it left it.
\<close>

definition delivered :: "('u, 'v) shipper list \<Rightarrow> 'v payload \<times> 'v call list \<Rightarrow> bool" where
  "delivered shs e \<longleftrightarrow>
     (case e of (r, cs) \<Rightarrow>
        length cs = length shs \<and>
        (\<forall>i<length cs.
           received (cs ! i) = (if i = 0 then r else left_as (cs ! (i - 1))) \<and>
           (\<exists>w1 w2. (shs ! i) (received (cs ! i)) w1 = (raised (cs ! i), left_as (cs ! i), w2))))"

text \<open>
  The world after every shipper of a list, in the order of the list, was called with one
  dict: each call starts from the dict and the world that the call before it left. This is
  what a dispatch that reaches every shipper is expected to do to the world.
\<close>

fun shipped_to_all :: "('u, 'v) shipper list \<Rightarrow> 'v payload \<Rightarrow> 'u world \<Rightarrow> 'u world" where
  "shipped_to_all [] p w = w"
| "shipped_to_all (sh # rest) p w = (case sh p w of (r, p', w') \<Rightarrow> shipped_to_all rest p' w')"

section \<open>A concrete run\<close>

text \<open>
  The example script: \<open>test()\<close> opens a scope at line 6 of \<open>example.py\<close>, updates its data
  twice, opens a second scope at line 10 and updates that one; line 12 is the last line of
  both blocks. The clock readings are in microseconds. The tracer has two shippers: one that
  inherits \<open>TracerInterface.trace\<close>, which raises on every call, and one that keeps every
  payload it is given in a list.
\<close>

definition recording_shipper :: "('v payload list, 'v) shipper" where
  "recording_shipper p w = (None, p, w\<lparr>custom := custom w @ [p]\<rparr>)"

text \<open>A shipper that writes a key of its own into the dict it is given.\<close>

definition stamping_shipper :: "('u, 'v) shipper" where
  "stamping_shipper p w = (None, p(''seen'' \<mapsto> PyInt 1), w)"

definition example_world :: "(string payload list) world" where
  "example_world = \<lparr>stdout = [], flushes = 0, console_logger = [], custom = []\<rparr>"

definition example_tracer :: "(string payload list, string) state" where
  "example_tracer =
     \<lparr>tracer_shippers = [TracerInterface_trace, recording_shipper], context_stack = [],
      pid = 4242, process_name = ''python example.py'', logger = [],
      world = example_world, trace_log = []\<rparr>"

definition module_frame :: frame where
  "module_frame = \<lparr>f_filename = ''example.py'', f_line = 14, f_name = ''<module>''\<rparr>"

definition example_outer :: "string scope" where
  "example_outer =
     \<lparr>open_ctx = \<lparr>ctx_now = 0, ctx_thread = ''MainThread'',
                  ctx_caller = \<lparr>f_filename = ''example.py'', f_line = 6, f_name = ''test''\<rparr>,
                  ctx_outer = [module_frame]\<rparr>,
      pre = [[''a'' \<mapsto> ''a'', ''b'' \<mapsto> ''b''], [''c'' \<mapsto> ''c'', ''d'' \<mapsto> ''d'']],
      close_ctx = \<lparr>ctx_now = 2500000, ctx_thread = ''MainThread'',
                   ctx_caller = \<lparr>f_filename = ''example.py'', f_line = 12, f_name = ''test''\<rparr>,
                   ctx_outer = [module_frame]\<rparr>,
      post = []\<rparr>"

definition example_inner :: "string scope" where
  "example_inner =
     \<lparr>open_ctx = \<lparr>ctx_now = 1000000, ctx_thread = ''MainThread'',
                  ctx_caller = \<lparr>f_filename = ''example.py'', f_line = 10, f_name = ''test''\<rparr>,
                  ctx_outer = [module_frame]\<rparr>,
      pre = [[''e'' \<mapsto> ''e'', ''f'' \<mapsto> ''f'']],
      close_ctx = \<lparr>ctx_now = 2000000, ctx_thread = ''MainThread'',
                   ctx_caller = \<lparr>f_filename = ''example.py'', f_line = 12, f_name = ''test''\<rparr>,
                   ctx_outer = [module_frame]\<rparr>,
      post = []\<rparr>"

text \<open>The tracer after the outer scope was opened and written to.\<close>

definition example_open :: "(string payload list, string) state" where
  "example_open =
     example_tracer\<lparr>context_stack :=
       [[start_time_key \<mapsto> PyDatetime 0,
         data_key \<mapsto> PyDict [''a'' \<mapsto> ''a'', ''b'' \<mapsto> ''b'']]]\<rparr>"

text \<open>The same tracer with a shipper that writes into the dict before the recording one.\<close>

definition example_stamping :: "(string payload list, string) state" where
  "example_stamping = example_tracer\<lparr>tracer_shippers := [stamping_shipper, recording_shipper]\<rparr>"

text \<open>A block that raises.\<close>

definition raising_body ::
  "(string payload list, string) state \<Rightarrow> exn option \<times> (string payload list, string) state" where
  "raising_body s = (Some (OtherException ''boom''), s)"

text \<open>A stand-in for \<open>datetime.isoformat\<close> in the concrete runs; every theorem holds for any
  function in its place.\<close>

definition example_isoformat :: "int \<Rightarrow> string" where
  "example_isoformat t = (if t = 0 then ''1970-01-01T00:00:00+00:00'' else ''1970-01-01T00:00:01+00:00'')"

section \<open>The shippers' loop\<close>

lemma trace_loop_ok:
  "\<forall>sh \<in> set shs. raises_only_Exception sh \<Longrightarrow>
   \<exists>p' w' new. trace_loop shs p w lg cs =
        (None, p', w', lg @ [e. Some e \<leftarrow> map raised new], cs @ new) \<and> length new = length shs"
proof (induction shs arbitrary: p w lg cs)
  case Nil
  then show ?case by simp
next
  case (Cons sh shs)
  obtain r p1 w1 where sh: "sh p w = (r, p1, w1)" by (cases "sh p w") auto
  have ok: "\<forall>sh \<in> set shs. raises_only_Exception sh" using Cons.prems by simp
  show ?case
  proof (cases r)
    case None
    from Cons.IH[OF ok, of p1 w1 lg "cs @ [\<lparr>received = p, raised = None, left_as = p1\<rparr>]"]
    obtain p' w' new where
      "trace_loop shs p1 w1 lg (cs @ [\<lparr>received = p, raised = None, left_as = p1\<rparr>]) =
        (None, p', w', lg @ [e. Some e \<leftarrow> map raised new], (cs @ [\<lparr>received = p, raised = None, left_as = p1\<rparr>]) @ new)"
      "length new = length shs" by blast
    then show ?thesis using sh None
      by (intro exI[of _ p'] exI[of _ w'] exI[of _ "\<lparr>received = p, raised = None, left_as = p1\<rparr> # new"]) simp
  next
    case (Some e)
    have exc: "is_Exception e" using Cons.prems sh Some
      by (auto simp: raises_only_Exception_def dest!: spec[of _ p] spec[of _ w])
    from Cons.IH[OF ok, of p1 w1 "lg @ [e]" "cs @ [\<lparr>received = p, raised = Some e, left_as = p1\<rparr>]"]
    obtain p' w' new where
      "trace_loop shs p1 w1 (lg @ [e]) (cs @ [\<lparr>received = p, raised = Some e, left_as = p1\<rparr>]) =
        (None, p', w', (lg @ [e]) @ [e. Some e \<leftarrow> map raised new], (cs @ [\<lparr>received = p, raised = Some e, left_as = p1\<rparr>]) @ new)"
      "length new = length shs" by blast
    then show ?thesis using sh Some exc
      by (intro exI[of _ p'] exI[of _ w'] exI[of _ "\<lparr>received = p, raised = Some e, left_as = p1\<rparr> # new"]) simp
  qed
qed

lemma trace_loop_calls:
  "trace_loop shs p w lg cs = (r, p', w', lg', cs') \<Longrightarrow>
   \<exists>new. cs' = cs @ new \<and> length new \<le> length shs \<and>
     (\<forall>i<length new.
        received (new ! i) = (if i = 0 then p else left_as (new ! (i - 1))) \<and>
        (\<exists>w1 w2. (shs ! i) (received (new ! i)) w1 = (raised (new ! i), left_as (new ! i), w2)))"
proof (induction shs arbitrary: p w lg cs)
  case Nil
  then show ?case by simp
next
  case (Cons sh shs)
  obtain x p1 w1 where sh: "sh p w = (x, p1, w1)" by (cases "sh p w") auto
  define c where "c = \<lparr>received = p, raised = x, left_as = p1\<rparr>"
  have step: "\<exists>new. cs' = cs @ c # new \<and> length new \<le> length shs \<and>
     (\<forall>i<length new.
        received (new ! i) = (if i = 0 then p1 else left_as (new ! (i - 1))) \<and>
        (\<exists>w1 w2. (shs ! i) (received (new ! i)) w1 = (raised (new ! i), left_as (new ! i), w2)))"
  proof (cases "\<exists>e. x = Some e \<and> \<not> is_Exception e")
    case True
    then have "cs' = cs @ [c]" using Cons.prems sh by (auto simp: c_def)
    then show ?thesis by simp
  next
    case False
    then obtain lg1 where "trace_loop shs p1 w1 lg1 (cs @ [c]) = (r, p', w', lg', cs')"
      using Cons.prems sh by (cases x) (auto simp: c_def)
    from Cons.IH[OF this] show ?thesis by auto
  qed
  then obtain new where new: "cs' = cs @ c # new" "length new \<le> length shs"
     "\<forall>i<length new.
        received (new ! i) = (if i = 0 then p1 else left_as (new ! (i - 1))) \<and>
        (\<exists>w1 w2. (shs ! i) (received (new ! i)) w1 = (raised (new ! i), left_as (new ! i), w2))"
    by blast
  have "\<forall>i<length (c # new).
        received ((c # new) ! i) = (if i = 0 then p else left_as ((c # new) ! (i - 1))) \<and>
        (\<exists>w1 w2. ((sh # shs) ! i) (received ((c # new) ! i)) w1 =
            (raised ((c # new) ! i), left_as ((c # new) ! i), w2))"
  proof (intro allI impI)
    fix i assume i: "i < length (c # new)"
    show "received ((c # new) ! i) = (if i = 0 then p else left_as ((c # new) ! (i - 1))) \<and>
        (\<exists>w1 w2. ((sh # shs) ! i) (received ((c # new) ! i)) w1 =
            (raised ((c # new) ! i), left_as ((c # new) ! i), w2))"
    proof (cases i)
      case 0
      then show ?thesis using sh by (auto simp: c_def)
    next
      case (Suc j)
      then have j: "j < length new" using i by simp
      from new(3)[rule_format, OF j] obtain w1 w2 where
        r: "received (new ! j) = (if j = 0 then p1 else left_as (new ! (j - 1)))" and
        a: "(shs ! j) (received (new ! j)) w1 = (raised (new ! j), left_as (new ! j), w2)"
        by blast
      have "received ((c # new) ! i) = (if i = 0 then p else left_as ((c # new) ! (i - 1)))"
        using r Suc by (cases j) (simp_all add: c_def)
      moreover have "((sh # shs) ! i) (received ((c # new) ! i)) w1 =
            (raised ((c # new) ! i), left_as ((c # new) ! i), w2)"
        using a Suc by simp
      ultimately show ?thesis by blast
    qed
  qed
  then have chain: "\<forall>i<length (c # new).
        received ((c # new) ! i) = (if i = 0 then p else left_as ((c # new) ! (i - 1))) \<and>
        (\<exists>w1 w2. ((sh # shs) ! i) (received ((c # new) ! i)) w1 =
            (raised ((c # new) ! i), left_as ((c # new) ! i), w2))" .
  show ?case
  proof (intro exI[of _ "c # new"] conjI)
    show "cs' = cs @ c # new" by fact
    show "length (c # new) \<le> length (sh # shs)" using new(2) by simp
    show "\<forall>i<length (c # new).
        received ((c # new) ! i) = (if i = 0 then p else left_as ((c # new) ! (i - 1))) \<and>
        (\<exists>w1 w2. ((sh # shs) ! i) (received ((c # new) ! i)) w1 =
            (raised ((c # new) ! i), left_as ((c # new) ! i), w2))" by (rule chain)
  qed
qed

lemma trace_loop_calls0:
  assumes "trace_loop shs p w lg [] = (r, p', w', lg', cs)"
  shows "length cs \<le> length shs \<and>
     (\<forall>i<length cs.
        received (cs ! i) = (if i = 0 then p else left_as (cs ! (i - 1))) \<and>
        (\<exists>w1 w2. (shs ! i) (received (cs ! i)) w1 = (raised (cs ! i), left_as (cs ! i), w2)))"
proof -
  from trace_loop_calls[OF assms] obtain new where
    n: "cs = [] @ new" and
    rest: "length new \<le> length shs \<and>
     (\<forall>i<length new.
        received (new ! i) = (if i = 0 then p else left_as (new ! (i - 1))) \<and>
        (\<exists>w1 w2. (shs ! i) (received (new ! i)) w1 = (raised (new ! i), left_as (new ! i), w2)))"
    by blast
  have "cs = new" using n by simp
  with rest show ?thesis by blast
qed

lemma trace_loop_world:
  "trace_loop shs p w lg cs = (None, p', w', lg', cs') \<Longrightarrow> w' = shipped_to_all shs p w"
proof (induction shs arbitrary: p w lg cs)
  case Nil
  then show ?case by simp
next
  case (Cons sh shs)
  obtain x p1 w1 where sh: "sh p w = (x, p1, w1)" by (cases "sh p w") auto
  show ?case
  proof (cases x)
    case None
    then have "trace_loop shs p1 w1 lg (cs @ [\<lparr>received = p, raised = None, left_as = p1\<rparr>]) =
        (None, p', w', lg', cs')"
      using Cons.prems sh by simp
    from Cons.IH[OF this] show ?thesis using sh by simp
  next
    case (Some e)
    show ?thesis
    proof (cases "is_Exception e")
      case True
      then have "trace_loop shs p1 w1 (lg @ [e]) (cs @ [\<lparr>received = p, raised = Some e, left_as = p1\<rparr>]) =
          (None, p', w', lg', cs')"
        using Cons.prems sh Some by simp
      from Cons.IH[OF this] show ?thesis using sh by simp
    next
      case False
      then show ?thesis using Cons.prems sh Some by simp
    qed
  qed
qed

lemma trace_run:
  "\<exists>r p' w' lg cs.
     trace_loop (tracer_shippers s) p (world s) (logger s) [] = (r, p', w', lg, cs) \<and>
     trace (Some p) s = (r, s\<lparr>world := w', logger := lg, trace_log := trace_log s @ [(p, cs)]\<rparr>)"
proof -
  obtain r p' w' lg cs where
    tl: "trace_loop (tracer_shippers s) p (world s) (logger s) [] = (r, p', w', lg, cs)"
    using prod_cases5 by blast
  have "trace (Some p) s = (r, s\<lparr>world := w', logger := lg, trace_log := trace_log s @ [(p, cs)]\<rparr>)"
    unfolding trace_def by (simp only: option.case tl prod.case)
  with tl show ?thesis by blast
qed

lemma trace_Some_ok:
  assumes "\<forall>sh \<in> set (tracer_shippers s). raises_only_Exception sh"
  shows "\<exists>w' cs. trace (Some p) s =
            (None, s\<lparr>world := w', logger := logger s @ [e. Some e \<leftarrow> map raised cs],
                     trace_log := trace_log s @ [(p, cs)]\<rparr>) \<and>
          length cs = length (tracer_shippers s) \<and>
          delivered (tracer_shippers s) (p, cs) \<and>
          w' = shipped_to_all (tracer_shippers s) p (world s)"
proof -
  from trace_loop_ok[OF assms, of p "world s" "logger s" "[]"]
  obtain p' w' cs where
    tl: "trace_loop (tracer_shippers s) p (world s) (logger s) [] =
        (None, p', w', logger s @ [e. Some e \<leftarrow> map raised cs], cs)" and
    len: "length cs = length (tracer_shippers s)" by auto
  have tr: "trace (Some p) s =
            (None, s\<lparr>world := w', logger := logger s @ [e. Some e \<leftarrow> map raised cs],
                     trace_log := trace_log s @ [(p, cs)]\<rparr>)"
    unfolding trace_def by (simp only: option.case tl prod.case)
  have "delivered (tracer_shippers s) (p, cs)"
    unfolding delivered_def prod.case using trace_loop_calls0[OF tl] len by blast
  moreover have "w' = shipped_to_all (tracer_shippers s) p (world s)"
    by (rule trace_loop_world[OF tl])
  ultimately show ?thesis using tr len by blast
qed

text \<open>
  An exception that is not an \<open>Exception\<close> (\<open>KeyboardInterrupt\<close>, \<open>SystemExit\<close>,
  \<open>GeneratorExit\<close>) is not caught by the loop: it leaves \<open>_trace\<close>, and the shippers after
  the one that raised it are not called.
\<close>

lemma trace_lets_through:
  assumes "tracer_shippers s = sh # rest" and "sh p (world s) = (Some e, p', w')"
      and "\<not> is_Exception e"
  shows "trace (Some p) s =
     (Some e, s\<lparr>world := w', logger := logger s,
               trace_log := trace_log s @ [(p, [\<lparr>received = p, raised = Some e, left_as = p'\<rparr>])]\<rparr>)"
  using assms by (simp add: trace_def)

section \<open>Closing a scope\<close>

lemma enrich_entered:
  "enrich (Some [start_time_key \<mapsto> PyDatetime t0, data_key \<mapsto> PyDict d]) (f1 # f2 # rest) tnow thr s =
     Inr (Some [start_time_key \<mapsto> PyDatetime t0,
                data_key \<mapsto> PyDict d,
                file_key \<mapsto> PyStr (f_filename f2),
                line_key \<mapsto> PyInt (f_line f2),
                function_key \<mapsto> PyStr (f_name f2),
                thread_key \<mapsto> PyStr thr,
                pid_key \<mapsto> PyInt (pid s),
                process_name_key \<mapsto> PyStr (process_name s),
                duration_key \<mapsto> PyTimedelta (tnow - t0)])"
  by (simp add: enrich_def)

lemma convert_enriched:
  "convert isoformat (Some [start_time_key \<mapsto> PyDatetime t0,
                data_key \<mapsto> dv,
                file_key \<mapsto> a1,
                line_key \<mapsto> a2,
                function_key \<mapsto> a3,
                thread_key \<mapsto> a4,
                pid_key \<mapsto> a5,
                process_name_key \<mapsto> a6,
                duration_key \<mapsto> PyTimedelta td]) =
     Inr (Some [start_time_key \<mapsto> PyStr (isoformat t0),
                data_key \<mapsto> dv,
                file_key \<mapsto> a1,
                line_key \<mapsto> a2,
                function_key \<mapsto> a3,
                thread_key \<mapsto> a4,
                pid_key \<mapsto> a5,
                process_name_key \<mapsto> a6,
                duration_key \<mapsto> PyFloat (total_seconds td)])"
  unfolding convert_def by (simp add: fun_eq_iff)

lemma exit_top:
  assumes "context_stack s = stk @ [[start_time_key \<mapsto> PyDatetime t0, data_key \<mapsto> PyDict d]]"
  shows "exit isoformat exc c s =
     (case trace (Some [start_time_key \<mapsto> PyStr (isoformat t0),
                        data_key \<mapsto> PyDict d,
                        file_key \<mapsto> PyStr (f_filename (ctx_caller c)),
                        line_key \<mapsto> PyInt (f_line (ctx_caller c)),
                        function_key \<mapsto> PyStr (f_name (ctx_caller c)),
                        thread_key \<mapsto> PyStr (ctx_thread c),
                        pid_key \<mapsto> PyInt (pid s),
                        process_name_key \<mapsto> PyStr (process_name s),
                        duration_key \<mapsto> PyFloat (total_seconds (ctx_now c - t0))])
             (s\<lparr>context_stack := stk\<rparr>) of
        (Some e, s2) \<Rightarrow> (Inl e, s2)
      | (None, s2) \<Rightarrow> (Inr False, s2))"
  unfolding exit_def
  by (simp add: assms list.case_eq_if Let_def enrich_entered convert_enriched)

lemma dom_shipped:
  "dom [start_time_key \<mapsto> a0, data_key \<mapsto> a1, file_key \<mapsto> a2, line_key \<mapsto> a3,
        function_key \<mapsto> a4, thread_key \<mapsto> a5, pid_key \<mapsto> a6, process_name_key \<mapsto> a7,
        duration_key \<mapsto> a8] = reserved_keys"
  unfolding reserved_keys_def by auto

lemma exit_ships:
  assumes "context_stack s = stk @ [[start_time_key \<mapsto> PyDatetime t0, data_key \<mapsto> PyDict d]]"
  shows "\<exists>cs. trace_log (snd (exit isoformat exc c s)) =
           trace_log s @
           [([start_time_key \<mapsto> PyStr (isoformat t0),
              data_key \<mapsto> PyDict d,
              file_key \<mapsto> PyStr (f_filename (ctx_caller c)),
              line_key \<mapsto> PyInt (f_line (ctx_caller c)),
              function_key \<mapsto> PyStr (f_name (ctx_caller c)),
              thread_key \<mapsto> PyStr (ctx_thread c),
              pid_key \<mapsto> PyInt (pid s),
              process_name_key \<mapsto> PyStr (process_name s),
              duration_key \<mapsto> PyFloat (total_seconds (ctx_now c - t0))], cs)] \<and>
         (cs \<noteq> [] \<longrightarrow> received (hd cs) =
             [start_time_key \<mapsto> PyStr (isoformat t0),
              data_key \<mapsto> PyDict d,
              file_key \<mapsto> PyStr (f_filename (ctx_caller c)),
              line_key \<mapsto> PyInt (f_line (ctx_caller c)),
              function_key \<mapsto> PyStr (f_name (ctx_caller c)),
              thread_key \<mapsto> PyStr (ctx_thread c),
              pid_key \<mapsto> PyInt (pid s),
              process_name_key \<mapsto> PyStr (process_name s),
              duration_key \<mapsto> PyFloat (total_seconds (ctx_now c - t0))])"
proof -
  let ?R = "[start_time_key \<mapsto> PyStr (isoformat t0),
              data_key \<mapsto> PyDict d,
              file_key \<mapsto> PyStr (f_filename (ctx_caller c)),
              line_key \<mapsto> PyInt (f_line (ctx_caller c)),
              function_key \<mapsto> PyStr (f_name (ctx_caller c)),
              thread_key \<mapsto> PyStr (ctx_thread c),
              pid_key \<mapsto> PyInt (pid s),
              process_name_key \<mapsto> PyStr (process_name s),
              duration_key \<mapsto> PyFloat (total_seconds (ctx_now c - t0))]"
  let ?s1 = "s\<lparr>context_stack := stk\<rparr>"
  obtain r p' w' lg cs where
    tl: "trace_loop (tracer_shippers ?s1) ?R (world ?s1) (logger ?s1) [] = (r, p', w', lg, cs)"
    using prod_cases5 by blast
  from trace_loop_calls[OF tl] have hd: "cs \<noteq> [] \<longrightarrow> received (hd cs) = ?R"
    by (cases cs) auto
  have tr: "trace (Some ?R) ?s1 = (r, ?s1\<lparr>world := w', logger := lg, trace_log := trace_log ?s1 @ [(?R, cs)]\<rparr>)"
    unfolding trace_def by (simp only: option.case tl prod.case)
  have "trace_log (snd (exit isoformat exc c s)) = trace_log s @ [(?R, cs)]"
    unfolding exit_top[OF assms] tr by (cases r) simp_all
  with hd show ?thesis by blast
qed

lemma enrich_result:
  assumes "enrich (Some p) callers tnow thread_name s = Inr (Some p')"
  shows "\<exists>dv. p' = p(file_key \<mapsto> PyStr (f_filename ((enrich_frame # callers) ! 2)),
                      line_key \<mapsto> PyInt (f_line ((enrich_frame # callers) ! 2)),
                      function_key \<mapsto> PyStr (f_name ((enrich_frame # callers) ! 2)),
                      thread_key \<mapsto> PyStr thread_name,
                      pid_key \<mapsto> PyInt (pid s),
                      process_name_key \<mapsto> PyStr (process_name s),
                      duration_key \<mapsto> dv)"
proof (cases "2 < length (enrich_frame # callers)")
  case False
  then show ?thesis using assms by (simp add: enrich_def)
next
  case True
  let ?upd = "\<lambda>dv. p(file_key \<mapsto> PyStr (f_filename ((enrich_frame # callers) ! 2)),
                      line_key \<mapsto> PyInt (f_line ((enrich_frame # callers) ! 2)),
                      function_key \<mapsto> PyStr (f_name ((enrich_frame # callers) ! 2)),
                      thread_key \<mapsto> PyStr thread_name,
                      pid_key \<mapsto> PyInt (pid s),
                      process_name_key \<mapsto> PyStr (process_name s),
                      duration_key \<mapsto> dv)"
  show ?thesis
  proof (cases "p start_time_key")
    case None
    then show ?thesis using assms True by (simp add: enrich_def)
  next
    case (Some v)
    show ?thesis
    proof (cases v)
      case (PyDatetime x1)
      have "enrich (Some p) callers tnow thread_name s = Inr (Some (?upd (PyTimedelta (tnow - x1))))"
        unfolding enrich_def Let_def using Some PyDatetime True by simp
      with assms show ?thesis by (metis Inr_inject option.inject)
    next
      case (PyTimedelta x2)
      have "enrich (Some p) callers tnow thread_name s = Inr (Some (?upd (PyDatetime (tnow - x2))))"
        unfolding enrich_def Let_def using Some PyTimedelta True by simp
      with assms show ?thesis by (metis Inr_inject option.inject)
    next
      case (PyStr x3)
      then show ?thesis using assms True Some by (simp add: enrich_def)
    next
      case (PyFloat x4)
      then show ?thesis using assms True Some by (simp add: enrich_def)
    next
      case (PyInt x5)
      then show ?thesis using assms True Some by (simp add: enrich_def)
    next
      case (PyDict x6)
      then show ?thesis using assms True Some by (simp add: enrich_def)
    qed
  qed
qed

lemma exit_not_True: "fst (exit isoformat exc c s) \<noteq> Inr True"
  by (auto simp: exit_def Let_def split: list.splits sum.splits prod.splits option.splits)

section \<open>Writing to the current scope, and nested scopes\<close>

lemma updates_top:
  "context_stack s = stk @ [[start_time_key \<mapsto> PyDatetime t0, data_key \<mapsto> PyDict d]] \<Longrightarrow>
   updates ws s =
     (None, s\<lparr>context_stack :=
                stk @ [[start_time_key \<mapsto> PyDatetime t0, data_key \<mapsto> PyDict (foldl (++) d ws)]]\<rparr>)"
proof (induction ws arbitrary: s d)
  case Nil
  then show ?case by simp
next
  case (Cons kvs ws)
  let ?s' = "s\<lparr>context_stack :=
                stk @ [[start_time_key \<mapsto> PyDatetime t0, data_key \<mapsto> PyDict (d ++ kvs)]]\<rparr>"
  have cd: "current_data s = Inr (PyDict d)"
    using Cons.prems by (simp add: current_data_def list.case_eq_if)
  have m: "[start_time_key \<mapsto> PyDatetime t0, data_key \<mapsto> PyDict d](data_key \<mapsto> PyDict (d ++ kvs)) =
      [start_time_key \<mapsto> PyDatetime t0, data_key \<mapsto> PyDict (d ++ kvs)]" by simp
  have upd: "update_current_data kvs s = Inr ?s'"
    unfolding update_current_data_def cd Cons.prems by (simp only: m butlast_snoc last_snoc sum.case pyval.case)
  have st: "context_stack ?s' =
      stk @ [[start_time_key \<mapsto> PyDatetime t0, data_key \<mapsto> PyDict (d ++ kvs)]]" by simp
  have rest: "updates ws ?s' =
     (None, ?s'\<lparr>context_stack :=
                stk @ [[start_time_key \<mapsto> PyDatetime t0,
                        data_key \<mapsto> PyDict (foldl (++) (d ++ kvs) ws)]]\<rparr>)"
    by (rule Cons.IH[OF st])
  have step: "updates (kvs # ws) s = updates ws ?s'"
    by (simp only: updates.simps upd sum.case)
  have collapse: "\<And>c. ?s'\<lparr>context_stack := c\<rparr> = s\<lparr>context_stack := c\<rparr>" by simp
  show ?case unfolding foldl_Cons step rest collapse ..
qed

lemma current_data_top:
  "context_stack s = stk @ [[start_time_key \<mapsto> PyDatetime t0, data_key \<mapsto> PyDict d]] \<Longrightarrow>
   current_data s = Inr (PyDict d)"
  by (simp add: current_data_def list.case_eq_if)

lemma update_current_data_top:
  assumes "context_stack s = stk @ [[start_time_key \<mapsto> PyDatetime t0, data_key \<mapsto> PyDict d]]"
  shows "update_current_data kvs s =
     Inr (s\<lparr>context_stack :=
              stk @ [[start_time_key \<mapsto> PyDatetime t0, data_key \<mapsto> PyDict (d ++ kvs)]]\<rparr>)"
proof -
  have m: "[start_time_key \<mapsto> PyDatetime t0, data_key \<mapsto> PyDict d](data_key \<mapsto> PyDict (d ++ kvs)) =
      [start_time_key \<mapsto> PyDatetime t0, data_key \<mapsto> PyDict (d ++ kvs)]" by simp
  show ?thesis
    unfolding update_current_data_def current_data_top[OF assms] assms
    by (simp only: m butlast_snoc last_snoc sum.case pyval.case)
qed

lemma dom_foldl_map_add:
  "dom (foldl (++) m ws) = dom m \<union> (\<Union>kvs\<in>set ws. dom kvs)"
  by (induction ws arbitrary: m) auto

lemma nested_run:
  assumes "\<forall>sh \<in> set (tracer_shippers s). raises_only_Exception sh"
  shows "\<exists>s'. nested isoformat scs s = (None, s') \<and>
           tracer_shippers s' = tracer_shippers s \<and> context_stack s' = context_stack s \<and>
           pid s' = pid s \<and> process_name s' = process_name s \<and>
           map fst (trace_log s') =
             map fst (trace_log s) @ map (expected_record isoformat (pid s) (process_name s)) (rev scs) \<and>
           map (length \<circ> snd) (trace_log s') =
             map (length \<circ> snd) (trace_log s) @ replicate (length scs) (length (tracer_shippers s)) \<and>
           (\<exists>new. trace_log s' = trace_log s @ new \<and>
                  list_all (delivered (tracer_shippers s)) new) \<and>
           world s' =
             foldl (\<lambda>w r. shipped_to_all (tracer_shippers s) r w) (world s)
               (map (expected_record isoformat (pid s) (process_name s)) (rev scs))"
  using assms
proof (induction scs arbitrary: s)
  case Nil
  then show ?case by simp
next
  case (Cons sc inner)
  let ?S = "context_stack s"
  let ?t0 = "ctx_now (open_ctx sc)"
  let ?s0 = "enter (open_ctx sc) s"
  have s0: "context_stack ?s0 = ?S @ [[start_time_key \<mapsto> PyDatetime ?t0, data_key \<mapsto> PyDict Map.empty]]"
    by (simp add: enter_def)
  define s1 where "s1 = ?s0\<lparr>context_stack :=
       ?S @ [[start_time_key \<mapsto> PyDatetime ?t0, data_key \<mapsto> PyDict (foldl (++) Map.empty (pre sc))]]\<rparr>"
  have u1: "updates (pre sc) ?s0 = (None, s1)"
    unfolding s1_def by (rule updates_top[OF s0])
  have s1f: "tracer_shippers s1 = tracer_shippers s" "pid s1 = pid s" "process_name s1 = process_name s"
      "trace_log s1 = trace_log s" "world s1 = world s"
    by (simp_all add: s1_def enter_def)
  have s1c: "context_stack s1 =
      ?S @ [[start_time_key \<mapsto> PyDatetime ?t0, data_key \<mapsto> PyDict (foldl (++) Map.empty (pre sc))]]"
    by (simp add: s1_def)
  have ok1: "\<forall>sh \<in> set (tracer_shippers s1). raises_only_Exception sh"
    using Cons.prems s1f(1) by simp
  from Cons.IH[OF ok1] obtain s2 where
    n2: "nested isoformat inner s1 = (None, s2)" and
    s2f: "tracer_shippers s2 = tracer_shippers s1" "context_stack s2 = context_stack s1"
         "pid s2 = pid s1" "process_name s2 = process_name s1" and
    s2l: "map fst (trace_log s2) =
             map fst (trace_log s1) @ map (expected_record isoformat (pid s1) (process_name s1)) (rev inner)" and
    s2n: "map (length \<circ> snd) (trace_log s2) =
             map (length \<circ> snd) (trace_log s1) @ replicate (length inner) (length (tracer_shippers s1))" and
    s2d: "\<exists>new. trace_log s2 = trace_log s1 @ new \<and>
                  list_all (delivered (tracer_shippers s1)) new" and
    s2w: "world s2 =
             foldl (\<lambda>w r. shipped_to_all (tracer_shippers s1) r w) (world s1)
               (map (expected_record isoformat (pid s1) (process_name s1)) (rev inner))"
    by blast
  have s2c: "context_stack s2 =
      ?S @ [[start_time_key \<mapsto> PyDatetime ?t0, data_key \<mapsto> PyDict (foldl (++) Map.empty (pre sc))]]"
    using s2f(2) s1c by (simp only:)
  define s3 where "s3 = s2\<lparr>context_stack :=
       ?S @ [[start_time_key \<mapsto> PyDatetime ?t0,
              data_key \<mapsto> PyDict (foldl (++) (foldl (++) Map.empty (pre sc)) (post sc))]]\<rparr>"
  have u3: "updates (post sc) s2 = (None, s3)"
    unfolding s3_def by (rule updates_top[OF s2c])
  have s3c: "context_stack s3 = ?S @ [[start_time_key \<mapsto> PyDatetime ?t0,
              data_key \<mapsto> PyDict (written (pre sc @ post sc))]]"
    by (simp add: s3_def written_def)
  have s3f: "tracer_shippers s3 = tracer_shippers s" "pid s3 = pid s" "process_name s3 = process_name s"
      "trace_log s3 = trace_log s2" "world s3 = world s2"
    using s2f s1f by (simp_all add: s3_def)
  define s3' where "s3' = s3\<lparr>context_stack := ?S\<rparr>"
  have R: "[start_time_key \<mapsto> PyStr (isoformat ?t0),
                        data_key \<mapsto> PyDict (written (pre sc @ post sc)),
                        file_key \<mapsto> PyStr (f_filename (ctx_caller (close_ctx sc))),
                        line_key \<mapsto> PyInt (f_line (ctx_caller (close_ctx sc))),
                        function_key \<mapsto> PyStr (f_name (ctx_caller (close_ctx sc))),
                        thread_key \<mapsto> PyStr (ctx_thread (close_ctx sc)),
                        pid_key \<mapsto> PyInt (pid s3),
                        process_name_key \<mapsto> PyStr (process_name s3),
                        duration_key \<mapsto> PyFloat (total_seconds (ctx_now (close_ctx sc) - ?t0))]
      = expected_record isoformat (pid s) (process_name s) sc"
    unfolding expected_record_def s3f ..
  have ex: "exit isoformat None (close_ctx sc) s3 =
     (case trace (Some (expected_record isoformat (pid s) (process_name s) sc)) s3' of
        (Some e, s4) \<Rightarrow> (Inl e, s4)
      | (None, s4) \<Rightarrow> (Inr False, s4))"
    unfolding exit_top[OF s3c] R s3'_def ..
  have ok3: "\<forall>sh \<in> set (tracer_shippers s3'). raises_only_Exception sh"
    using Cons.prems s3f(1) by (simp add: s3'_def)
  from trace_Some_ok[OF ok3, of "expected_record isoformat (pid s) (process_name s) sc"]
  obtain w' cs where
    tr: "trace (Some (expected_record isoformat (pid s) (process_name s) sc)) s3' =
            (None, s3'\<lparr>world := w', logger := logger s3' @ [e. Some e \<leftarrow> map raised cs],
                     trace_log := trace_log s3' @ [(expected_record isoformat (pid s) (process_name s) sc, cs)]\<rparr>)"
    and len: "length cs = length (tracer_shippers s3')"
    and dl: "delivered (tracer_shippers s3') (expected_record isoformat (pid s) (process_name s) sc, cs)"
    and ww: "w' = shipped_to_all (tracer_shippers s3')
                    (expected_record isoformat (pid s) (process_name s) sc) (world s3')"
    by blast
  define s4 where "s4 = s3'\<lparr>world := w', logger := logger s3' @ [e. Some e \<leftarrow> map raised cs],
                     trace_log := trace_log s3' @ [(expected_record isoformat (pid s) (process_name s) sc, cs)]\<rparr>"
  have run: "nested isoformat (sc # inner) s = (None, s4)"
    by (simp add: u1 n2 u3 ex tr s4_def)
  have f4: "tracer_shippers s4 = tracer_shippers s" "context_stack s4 = context_stack s"
        "pid s4 = pid s" "process_name s4 = process_name s"
    using s3f by (simp_all add: s4_def s3'_def)
  have l4: "trace_log s4 = trace_log s2 @ [(expected_record isoformat (pid s) (process_name s) sc, cs)]"
    using s3f by (simp add: s4_def s3'_def)
  have len': "length cs = length (tracer_shippers s)" using len s3f(1) by (simp add: s3'_def)
  have m4: "map fst (trace_log s4) =
             map fst (trace_log s) @ map (expected_record isoformat (pid s) (process_name s)) (rev (sc # inner))"
    unfolding l4 using s2l s1f by simp
  have n4: "map (length \<circ> snd) (trace_log s4) =
             map (length \<circ> snd) (trace_log s) @ replicate (length (sc # inner)) (length (tracer_shippers s))"
    unfolding l4 using s2n s1f len' by (simp add: replicate_append_same)
  from s2d obtain new2 where
    new2: "trace_log s2 = trace_log s @ new2" "list_all (delivered (tracer_shippers s)) new2"
    unfolding s1f by blast
  have dl': "delivered (tracer_shippers s) (expected_record isoformat (pid s) (process_name s) sc, cs)"
    using dl s3f(1) by (simp add: s3'_def)
  have d4: "\<exists>new. trace_log s4 = trace_log s @ new \<and>
                  list_all (delivered (tracer_shippers s)) new"
    unfolding l4 using new2 dl'
    by (intro exI[of _ "new2 @ [(expected_record isoformat (pid s) (process_name s) sc, cs)]"]) simp
  have w4: "world s4 =
             foldl (\<lambda>w r. shipped_to_all (tracer_shippers s) r w) (world s)
               (map (expected_record isoformat (pid s) (process_name s)) (rev (sc # inner)))"
    using ww s2w s3f s1f by (simp add: s4_def s3'_def)
  show ?case using run f4 m4 n4 d4 w4 by blast
qed

section \<open>What the stack holds\<close>

text \<open>
  The stack of a new tracer is empty, \<open>__enter__\<close> pushes an open context, an update through
  \<open>current_data\<close> and \<open>__exit__\<close> leave open contexts open contexts, and \<open>__exit__\<close> pops
  one. So on a tracer used through these calls the top of a stack that is not empty is an open
  context: the shape the theorems below ask of it.
\<close>

lemma init_stack_empty:
  "init json_dumps shippers ospid cmdline w = Inr s \<Longrightarrow> context_stack s = []"
  by (auto simp: init_def Let_def split: sum.splits if_splits)

lemma enter_keeps_stack:
  "list_all open_context (context_stack s) \<Longrightarrow> list_all open_context (context_stack (enter c s))"
  by (auto simp: enter_def open_context_def)

lemma top_open_context:
  assumes "list_all open_context (context_stack s)" and "context_stack s \<noteq> []"
  shows "\<exists>stk t0 d. context_stack s =
           stk @ [[start_time_key \<mapsto> PyDatetime t0, data_key \<mapsto> PyDict d]]"
proof -
  from assms(2) obtain stk p where sp: "context_stack s = stk @ [p]"
    by (metis append_butlast_last_id)
  with assms(1) have "open_context p" by simp
  then obtain t0 d where "p = [start_time_key \<mapsto> PyDatetime t0, data_key \<mapsto> PyDict d]"
    unfolding open_context_def by blast
  with sp show ?thesis by blast
qed

lemma update_keeps_stack:
  assumes "list_all open_context (context_stack s)" and "update_current_data kvs s = Inr s'"
  shows "list_all open_context (context_stack s')"
proof (cases "context_stack s = []")
  case True
  then show ?thesis using assms(2) by (simp add: update_current_data_def current_data_def)
next
  case False
  from top_open_context[OF assms(1) False] obtain stk t0 d where
    top: "context_stack s = stk @ [[start_time_key \<mapsto> PyDatetime t0, data_key \<mapsto> PyDict d]]"
    by blast
  have "updates [kvs] s =
     (None, s\<lparr>context_stack :=
                stk @ [[start_time_key \<mapsto> PyDatetime t0, data_key \<mapsto> PyDict (foldl (++) d [kvs])]]\<rparr>)"
    by (rule updates_top[OF top])
  then have "s' = s\<lparr>context_stack :=
                stk @ [[start_time_key \<mapsto> PyDatetime t0, data_key \<mapsto> PyDict (foldl (++) d [kvs])]]\<rparr>"
    using assms(2) by simp
  moreover have "list_all open_context stk" using assms(1) top by simp
  moreover have "open_context [start_time_key \<mapsto> PyDatetime t0, data_key \<mapsto> PyDict (foldl (++) d [kvs])]"
    unfolding open_context_def by blast
  ultimately show ?thesis by simp
qed

lemma exit_pops:
  "context_stack (snd (exit isoformat exc c s)) = butlast (context_stack s)"
proof (cases "context_stack s")
  case Nil
  then show ?thesis by (simp add: exit_def)
next
  case (Cons x xs)
  let ?s1 = "s\<lparr>context_stack := butlast (context_stack s)\<rparr>"
  let ?e = "enrich (Some (last (context_stack s))) (exit_frame # ctx_caller c # ctx_outer c)
              (ctx_now c) (ctx_thread c) ?s1"
  have ex: "exit isoformat exc c s =
      (case ?e of
         Inl e \<Rightarrow> (Inl e, ?s1)
       | Inr enriched \<Rightarrow>
           (case convert isoformat enriched of
              Inl e \<Rightarrow> (Inl e, ?s1)
            | Inr converted \<Rightarrow>
                (case trace converted ?s1 of
                   (Some e, s2) \<Rightarrow> (Inl e, s2)
                 | (None, s2) \<Rightarrow> (Inr False, s2))))"
    unfolding exit_def Let_def using Cons by (simp only: list.case_eq_if list.distinct if_False)
  show ?thesis
  proof (cases ?e)
    case (Inl e)
    then show ?thesis by (simp add: ex)
  next
    case (Inr enriched)
    then obtain p1 where p1: "enriched = Some p1"
      by (cases enriched) (auto simp: enrich_def Let_def split: if_splits option.splits pyval.splits)
    show ?thesis
    proof (cases "convert isoformat enriched")
      case (Inl e)
      then show ?thesis by (simp add: ex Inr)
    next
      case cv: (Inr converted)
      then obtain p2 where p2: "converted = Some p2"
        unfolding p1 by (cases converted) (auto simp: convert_def Let_def split: option.splits pyval.splits)
      from trace_run[of ?s1 p2] obtain r w' lg cs where
        "trace (Some p2) ?s1 =
           (r, ?s1\<lparr>world := w', logger := lg, trace_log := trace_log ?s1 @ [(p2, cs)]\<rparr>)"
        by blast
      then show ?thesis by (cases r) (simp_all add: ex Inr cv p2)
    qed
  qed
qed

lemma exit_keeps_stack:
  "list_all open_context (context_stack s) \<Longrightarrow>
   list_all open_context (context_stack (snd (exit isoformat exc c s)))"
  unfolding exit_pops by (cases "context_stack s" rule: rev_cases) simp_all

section \<open>The shippers of the concrete run\<close>

lemma example_shippers_ok:
  "list_all raises_only_Exception (tracer_shippers example_tracer)"
  by (simp add: example_tracer_def raises_only_Exception_def TracerInterface_trace_def
        recording_shipper_def)

section \<open>The claims\<close>

text \<open>
  Claim C1. A nest of \<open>N\<close> scopes on one tracer, each written to before and after its inner
  scope, opened outermost first and closed innermost first: the run raises nothing, leaves
  the stack as it found it, and makes exactly \<open>N\<close> dispatches, one for each scope, in the
  order the scopes close (inner before outer). Each dispatched dict has exactly the reserved
  keys and holds under \<open>data\<close> what was written to its scope. Each dispatch reaches every
  shipper once, the first shipper receiving the dispatched dict, and the world the run leaves
  is the one that calling every shipper with each of these dicts, in that order, makes. The
  shippers raise only errors (\<open>Exception\<close>), so that no close is cut short.
\<close>

theorem nested_scopes_dispatch:
  assumes "list_all raises_only_Exception (tracer_shippers s)"
  shows "(\<exists>s' new. nested isoformat scs s = (None, s') \<and>
            context_stack s' = context_stack s \<and>
            trace_log s' = trace_log s @ new \<and>
            length new = length scs \<and>
            map fst new = map (expected_record isoformat (pid s) (process_name s)) (rev scs) \<and>
            list_all (delivered (tracer_shippers s)) new \<and>
            world s' =
              foldl (\<lambda>w r. shipped_to_all (tracer_shippers s) r w) (world s)
                (map (expected_record isoformat (pid s) (process_name s)) (rev scs))) \<and>
         (\<forall>sc. dom (expected_record isoformat (pid s) (process_name s) sc) = reserved_keys \<and>
               expected_record isoformat (pid s) (process_name s) sc data_key =
                 Some (PyDict (written (pre sc @ post sc))))"
proof
  have ok: "\<forall>sh \<in> set (tracer_shippers s). raises_only_Exception sh"
    using assms by (simp add: list_all_iff)
  from nested_run[OF ok, of isoformat scs] obtain s' new where
    r: "nested isoformat scs s = (None, s')" "context_stack s' = context_stack s" and
    m: "map fst (trace_log s') =
              map fst (trace_log s) @
              map (expected_record isoformat (pid s) (process_name s)) (rev scs)" and
    d: "trace_log s' = trace_log s @ new" "list_all (delivered (tracer_shippers s)) new" and
    w: "world s' =
              foldl (\<lambda>w r. shipped_to_all (tracer_shippers s) r w) (world s)
                (map (expected_record isoformat (pid s) (process_name s)) (rev scs))"
    by blast
  have mn: "map fst new = map (expected_record isoformat (pid s) (process_name s)) (rev scs)"
    using m unfolding d(1) by simp
  have "length (map fst new) = length scs" unfolding mn by simp
  then have ln: "length new = length scs" by simp
  show "\<exists>s' new. nested isoformat scs s = (None, s') \<and>
            context_stack s' = context_stack s \<and>
            trace_log s' = trace_log s @ new \<and>
            length new = length scs \<and>
            map fst new = map (expected_record isoformat (pid s) (process_name s)) (rev scs) \<and>
            list_all (delivered (tracer_shippers s)) new \<and>
            world s' =
              foldl (\<lambda>w r. shipped_to_all (tracer_shippers s) r w) (world s)
                (map (expected_record isoformat (pid s) (process_name s)) (rev scs))"
    using r d mn ln w by blast
next
  show "\<forall>sc. dom (expected_record isoformat (pid s) (process_name s) sc) = reserved_keys \<and>
               expected_record isoformat (pid s) (process_name s) sc data_key =
                 Some (PyDict (written (pre sc @ post sc)))"
    unfolding expected_record_def by (intro allI conjI, rule dom_shipped, simp)
qed

theorem nested_scopes_dispatch_witness:
  "list_all raises_only_Exception (tracer_shippers example_tracer) \<and>
   (\<exists>s'. nested example_isoformat [example_outer, example_inner] example_tracer = (None, s') \<and>
      context_stack s' = [] \<and>
      map fst (trace_log s') =
        [expected_record example_isoformat 4242 ''python example.py'' example_inner,
         expected_record example_isoformat 4242 ''python example.py'' example_outer] \<and>
      list_all (delivered [TracerInterface_trace, recording_shipper]) (trace_log s') \<and>
      custom (world s') =
        [expected_record example_isoformat 4242 ''python example.py'' example_inner,
         expected_record example_isoformat 4242 ''python example.py'' example_outer] \<and>
      map (\<lambda>r. r data_key) (custom (world s')) =
        [Some (PyDict [''e'' \<mapsto> ''e'', ''f'' \<mapsto> ''f'']),
         Some (PyDict [''a'' \<mapsto> ''a'', ''b'' \<mapsto> ''b'', ''c'' \<mapsto> ''c'', ''d'' \<mapsto> ''d''])] \<and>
      map (\<lambda>r. r start_time_key) (custom (world s')) =
        [Some (PyStr ''1970-01-01T00:00:01+00:00''), Some (PyStr ''1970-01-01T00:00:00+00:00'')])"
proof -
  let ?ei = "expected_record example_isoformat 4242 ''python example.py'' example_inner"
  let ?eo = "expected_record example_isoformat 4242 ''python example.py'' example_outer"
  have f: "pid example_tracer = 4242" "process_name example_tracer = ''python example.py''"
    "trace_log example_tracer = []" "context_stack example_tracer = []"
    "tracer_shippers example_tracer = [TracerInterface_trace, recording_shipper]"
    "world example_tracer = example_world"
    by (simp_all add: example_tracer_def)
  have d1: "?ei data_key = Some (PyDict [''e'' \<mapsto> ''e'', ''f'' \<mapsto> ''f''])"
    by (simp add: expected_record_def example_inner_def written_def)
  have d2: "?eo data_key =
      Some (PyDict [''a'' \<mapsto> ''a'', ''b'' \<mapsto> ''b'', ''c'' \<mapsto> ''c'', ''d'' \<mapsto> ''d''])"
    by (simp add: expected_record_def example_outer_def written_def)
  have t1: "?ei start_time_key = Some (PyStr ''1970-01-01T00:00:01+00:00'')"
    by (simp add: expected_record_def example_inner_def example_isoformat_def)
  have t2: "?eo start_time_key = Some (PyStr ''1970-01-01T00:00:00+00:00'')"
    by (simp add: expected_record_def example_outer_def example_isoformat_def)
  have cw: "custom (foldl (\<lambda>w r. shipped_to_all [TracerInterface_trace, recording_shipper] r w)
                     example_world [?ei, ?eo]) = [?ei, ?eo]"
    by (simp add: TracerInterface_trace_def recording_shipper_def example_world_def)
  from nested_scopes_dispatch[OF example_shippers_ok, of example_isoformat "[example_outer, example_inner]"]
  obtain s' new where
    a: "nested example_isoformat [example_outer, example_inner] example_tracer = (None, s')"
       "context_stack s' = []" "trace_log s' = new" "map fst new = [?ei, ?eo]"
       "list_all (delivered [TracerInterface_trace, recording_shipper]) new" and
    w: "world s' = foldl (\<lambda>w r. shipped_to_all [TracerInterface_trace, recording_shipper] r w)
                     example_world [?ei, ?eo]"
    unfolding f by auto
  have c: "custom (world s') = [?ei, ?eo]" unfolding w by (rule cw)
  show ?thesis
  proof (intro conjI exI[of _ s'])
    show "list_all raises_only_Exception (tracer_shippers example_tracer)"
      by (rule example_shippers_ok)
    show "nested example_isoformat [example_outer, example_inner] example_tracer = (None, s')"
      by (rule a(1))
    show "context_stack s' = []" by (rule a(2))
    show "map fst (trace_log s') = [?ei, ?eo]" using a(3,4) by simp
    show "list_all (delivered [TracerInterface_trace, recording_shipper]) (trace_log s')"
      using a(3,5) by simp
    show "custom (world s') = [?ei, ?eo]" by (rule c)
    show "map (\<lambda>r. r data_key) (custom (world s')) =
        [Some (PyDict [''e'' \<mapsto> ''e'', ''f'' \<mapsto> ''f'']),
         Some (PyDict [''a'' \<mapsto> ''a'', ''b'' \<mapsto> ''b'', ''c'' \<mapsto> ''c'', ''d'' \<mapsto> ''d''])]"
      unfolding c using d1 d2 by simp
    show "map (\<lambda>r. r start_time_key) (custom (world s')) =
        [Some (PyStr ''1970-01-01T00:00:01+00:00''), Some (PyStr ''1970-01-01T00:00:00+00:00'')]"
      unfolding c using t1 t2 by simp
  qed
qed



text \<open>
  Claim C3, as the code has it. The call-site keys are read from the third frame of
  \<open>inspect.getouterframes\<close> inside \<open>_enrich\<close>: two frames up from \<open>_enrich\<close>, past
  \<open>__exit__\<close>, which is the frame that called \<open>__exit__\<close>, at the line it is at when the scope
  closes. Nothing about the place of the opening call is kept.
\<close>

theorem call_site_is_caller_of_exit:
  assumes "context_stack s = stk @ [[start_time_key \<mapsto> PyDatetime t0, data_key \<mapsto> PyDict d]]"
  shows "(enrich_frame # exit_frame # ctx_caller c # ctx_outer c) ! 2 = ctx_caller c \<and>
         (\<exists>r cs. trace_log (snd (exit isoformat exc c s)) = trace_log s @ [(r, cs)] \<and>
            r file_key = Some (PyStr (f_filename (ctx_caller c))) \<and>
            r line_key = Some (PyInt (f_line (ctx_caller c))) \<and>
            r function_key = Some (PyStr (f_name (ctx_caller c))))"
proof -
  from exit_ships[OF assms, of isoformat exc c] obtain cs where
    a: "trace_log (snd (exit isoformat exc c s)) =
           trace_log s @
           [([start_time_key \<mapsto> PyStr (isoformat t0),
              data_key \<mapsto> PyDict d,
              file_key \<mapsto> PyStr (f_filename (ctx_caller c)),
              line_key \<mapsto> PyInt (f_line (ctx_caller c)),
              function_key \<mapsto> PyStr (f_name (ctx_caller c)),
              thread_key \<mapsto> PyStr (ctx_thread c),
              pid_key \<mapsto> PyInt (pid s),
              process_name_key \<mapsto> PyStr (process_name s),
              duration_key \<mapsto> PyFloat (total_seconds (ctx_now c - t0))], cs)]"
    by blast
  have "\<exists>r cs. trace_log (snd (exit isoformat exc c s)) = trace_log s @ [(r, cs)] \<and>
            r file_key = Some (PyStr (f_filename (ctx_caller c))) \<and>
            r line_key = Some (PyInt (f_line (ctx_caller c))) \<and>
            r function_key = Some (PyStr (f_name (ctx_caller c)))"
    using a by (intro exI conjI) (assumption, simp_all)
  then show ?thesis by simp
qed

theorem call_site_is_caller_of_exit_witness:
  "context_stack (enter (open_ctx example_outer) example_tracer) =
     [] @ [[start_time_key \<mapsto> PyDatetime 0, data_key \<mapsto> PyDict Map.empty]] \<and>
   (\<exists>r cs. trace_log (snd (exit example_isoformat None (close_ctx example_outer)
                               (enter (open_ctx example_outer) example_tracer))) = [(r, cs)] \<and>
            r file_key = Some (PyStr ''example.py'') \<and>
            r line_key = Some (PyInt 12) \<and>
            r function_key = Some (PyStr ''test''))"
proof -
  have h: "context_stack (enter (open_ctx example_outer) example_tracer) =
     [] @ [[start_time_key \<mapsto> PyDatetime 0, data_key \<mapsto> PyDict Map.empty]]"
    by (simp add: enter_def example_tracer_def example_outer_def)
  have l: "trace_log (enter (open_ctx example_outer) example_tracer) = []"
    by (simp add: enter_def example_tracer_def)
  have f: "f_filename (ctx_caller (close_ctx example_outer)) = ''example.py''"
     "f_line (ctx_caller (close_ctx example_outer)) = 12"
     "f_name (ctx_caller (close_ctx example_outer)) = ''test''"
    by (simp_all add: example_outer_def)
  from call_site_is_caller_of_exit[OF h, of "close_ctx example_outer" example_isoformat None]
  show ?thesis unfolding l f using h by auto
qed

text \<open>
  Claim C3 as the specification states it fails: the outer scope of the example is opened at
  line 6 of \<open>example.py\<close>, the close is called when the frame is at line 12, and the dict
  that is shipped has line 12.
\<close>

theorem call_site_not_open_site:
  "f_line (ctx_caller (open_ctx example_outer)) = 6 \<and>
   fst (last (trace_log (snd (exit example_isoformat None (close_ctx example_outer)
                                (enter (open_ctx example_outer) example_tracer))))) line_key
     = Some (PyInt 12) \<and>
   fst (last (trace_log (snd (exit example_isoformat None (close_ctx example_outer)
                                (enter (open_ctx example_outer) example_tracer))))) line_key
     \<noteq> Some (PyInt (f_line (ctx_caller (open_ctx example_outer))))"
proof -
  have h: "context_stack (enter (open_ctx example_outer) example_tracer) =
     [] @ [[start_time_key \<mapsto> PyDatetime 0, data_key \<mapsto> PyDict Map.empty]]"
    by (simp add: enter_def example_tracer_def example_outer_def)
  have f: "f_line (ctx_caller (close_ctx example_outer)) = 12"
     "f_line (ctx_caller (open_ctx example_outer)) = 6"
    by (simp_all add: example_outer_def)
  from exit_ships[OF h, of example_isoformat None "close_ctx example_outer"]
  show ?thesis unfolding f by auto
qed

text \<open>
  Claim C4. Calling the current-data accessor on a tracer with no open scope raises an error
  and returns no mapping, default or empty. The error is Python's \<open>IndexError\<close>, from
  \<open>self._context_stack[-1]\<close> on the empty list; the module defines no error class of its own.
\<close>

theorem current_data_empty_stack:
  assumes "context_stack s = []"
  shows "current_data s = Inl IndexError \<and> (\<forall>v. current_data s \<noteq> Inr v)"
  using assms by (simp add: current_data_def)

theorem current_data_empty_stack_witness:
  "context_stack example_tracer = [] \<and> current_data example_tracer = Inl IndexError \<and>
   (\<forall>v. current_data example_tracer \<noteq> Inr v)"
proof -
  have h: "context_stack example_tracer = []" by (simp add: example_tracer_def)
  show ?thesis using h current_data_empty_stack[OF h] by simp
qed

text \<open>
  Claim C5. What the caller writes between open and close reaches the shippers as written.
  After \<open>__enter__\<close> and a run of \<open>current_data.update\<close> calls, \<open>current_data\<close> is the dict
  these updates built, and the dict that \<open>__exit__\<close> hands to the shippers holds exactly that
  dict under \<open>data\<close>, next to the other reserved keys; the first shipper receives it. An
  update through \<open>current_data\<close> is seen by the next \<open>current_data\<close>, no key that was written
  is missing, and a close ships the \<open>data\<close> of any open context as it is. Enrichment writes
  seven keys and leaves every other key of any dict, \<open>data\<close> among them, as it was.
\<close>

theorem data_round_trip:
  "(\<exists>s1. updates ws (enter co (s :: ('u, 'v) state)) = (None, s1) \<and>
         current_data s1 = Inr (PyDict (written ws)) \<and>
         (\<exists>r cs. trace_log (snd (exit isoformat exc cc s1)) = trace_log s @ [(r, cs)] \<and>
                 r data_key = Some (PyDict (written ws)) \<and>
                 dom r = reserved_keys \<and>
                 (cs \<noteq> [] \<longrightarrow> received (hd cs) = r))) \<and>
   dom (written ws) = (\<Union>kvs\<in>set ws. dom kvs) \<and>
   (\<forall>(s0 :: ('u, 'v) state) stk t0 d kvs.
      context_stack s0 = stk @ [[start_time_key \<mapsto> PyDatetime t0, data_key \<mapsto> PyDict d]] \<longrightarrow>
      (\<exists>s'. update_current_data kvs s0 = Inr s' \<and> current_data s' = Inr (PyDict (d ++ kvs))) \<and>
      (\<exists>r cs. trace_log (snd (exit isoformat exc cc s0)) = trace_log s0 @ [(r, cs)] \<and>
              r data_key = Some (PyDict d) \<and> dom r = reserved_keys \<and>
              (cs \<noteq> [] \<longrightarrow> received (hd cs) = r))) \<and>
   (\<forall>p p' callers tnow thread_name.
      enrich (Some p) callers tnow thread_name s = Inr (Some p') \<longrightarrow>
        p' data_key = p data_key \<and>
        (\<forall>k. k \<notin> {file_key, line_key, function_key, thread_key, pid_key,
                   process_name_key, duration_key} \<longrightarrow> p' k = p k))"
proof (intro conjI)
  have ships: "\<exists>r cs. trace_log (snd (exit isoformat exc cc s0)) = trace_log s0 @ [(r, cs)] \<and>
              r data_key = Some (PyDict d) \<and> dom r = reserved_keys \<and>
              (cs \<noteq> [] \<longrightarrow> received (hd cs) = r)"
    if top: "context_stack s0 = stk @ [[start_time_key \<mapsto> PyDatetime t0, data_key \<mapsto> PyDict d]]"
    for s0 :: "('u, 'v) state" and stk t0 d
  proof -
    from exit_ships[OF top, of isoformat exc cc] obtain cs where
      a: "trace_log (snd (exit isoformat exc cc s0)) =
           trace_log s0 @
           [([start_time_key \<mapsto> PyStr (isoformat t0),
              data_key \<mapsto> PyDict d,
              file_key \<mapsto> PyStr (f_filename (ctx_caller cc)),
              line_key \<mapsto> PyInt (f_line (ctx_caller cc)),
              function_key \<mapsto> PyStr (f_name (ctx_caller cc)),
              thread_key \<mapsto> PyStr (ctx_thread cc),
              pid_key \<mapsto> PyInt (pid s0),
              process_name_key \<mapsto> PyStr (process_name s0),
              duration_key \<mapsto> PyFloat (total_seconds (ctx_now cc - t0))], cs)]" and
      b: "cs \<noteq> [] \<longrightarrow> received (hd cs) =
             [start_time_key \<mapsto> PyStr (isoformat t0),
              data_key \<mapsto> PyDict d,
              file_key \<mapsto> PyStr (f_filename (ctx_caller cc)),
              line_key \<mapsto> PyInt (f_line (ctx_caller cc)),
              function_key \<mapsto> PyStr (f_name (ctx_caller cc)),
              thread_key \<mapsto> PyStr (ctx_thread cc),
              pid_key \<mapsto> PyInt (pid s0),
              process_name_key \<mapsto> PyStr (process_name s0),
              duration_key \<mapsto> PyFloat (total_seconds (ctx_now cc - t0))]"
      by blast
    show ?thesis
      using a b by (intro exI conjI) (assumption, simp, rule dom_shipped, assumption)
  qed
  let ?S = "context_stack s"
  let ?s0 = "enter co s"
  let ?s1 = "?s0\<lparr>context_stack :=
       ?S @ [[start_time_key \<mapsto> PyDatetime (ctx_now co),
              data_key \<mapsto> PyDict (foldl (++) Map.empty ws)]]\<rparr>"
  have h0: "context_stack ?s0 =
      ?S @ [[start_time_key \<mapsto> PyDatetime (ctx_now co), data_key \<mapsto> PyDict Map.empty]]"
    by (simp add: enter_def)
  have u: "updates ws ?s0 = (None, ?s1)" by (rule updates_top[OF h0])
  have h1: "context_stack ?s1 =
      ?S @ [[start_time_key \<mapsto> PyDatetime (ctx_now co), data_key \<mapsto> PyDict (written ws)]]"
    by (simp add: written_def)
  have l1: "trace_log ?s1 = trace_log s" by (simp add: enter_def)
  have cd: "current_data ?s1 = Inr (PyDict (written ws))" by (rule current_data_top[OF h1])
  from ships[OF h1] have sh: "\<exists>r cs. trace_log (snd (exit isoformat exc cc ?s1)) = trace_log s @ [(r, cs)] \<and>
              r data_key = Some (PyDict (written ws)) \<and> dom r = reserved_keys \<and>
              (cs \<noteq> [] \<longrightarrow> received (hd cs) = r)"
    unfolding l1 .
  show "\<exists>s1. updates ws (enter co s) = (None, s1) \<and>
         current_data s1 = Inr (PyDict (written ws)) \<and>
         (\<exists>r cs. trace_log (snd (exit isoformat exc cc s1)) = trace_log s @ [(r, cs)] \<and>
                 r data_key = Some (PyDict (written ws)) \<and>
                 dom r = reserved_keys \<and>
                 (cs \<noteq> [] \<longrightarrow> received (hd cs) = r))"
    using u cd sh by (intro exI[of _ ?s1] conjI)
  show "dom (written ws) = (\<Union>kvs\<in>set ws. dom kvs)"
    unfolding written_def dom_foldl_map_add by simp
  show "\<forall>s0 stk t0 d kvs.
      context_stack (s0 :: ('u, 'v) state) =
        stk @ [[start_time_key \<mapsto> PyDatetime t0, data_key \<mapsto> PyDict d]] \<longrightarrow>
      (\<exists>s'. update_current_data kvs s0 = Inr s' \<and> current_data s' = Inr (PyDict (d ++ kvs))) \<and>
      (\<exists>r cs. trace_log (snd (exit isoformat exc cc s0)) = trace_log s0 @ [(r, cs)] \<and>
              r data_key = Some (PyDict d) \<and> dom r = reserved_keys \<and>
              (cs \<noteq> [] \<longrightarrow> received (hd cs) = r))"
  proof (intro allI impI conjI)
    fix s0 :: "('u, 'v) state" and stk t0 d kvs
    assume top: "context_stack s0 =
        stk @ [[start_time_key \<mapsto> PyDatetime t0, data_key \<mapsto> PyDict d]]"
    let ?s' = "s0\<lparr>context_stack :=
              stk @ [[start_time_key \<mapsto> PyDatetime t0, data_key \<mapsto> PyDict (d ++ kvs)]]\<rparr>"
    have "update_current_data kvs s0 = Inr ?s'" by (rule update_current_data_top[OF top])
    moreover have "current_data ?s' = Inr (PyDict (d ++ kvs))"
      by (rule current_data_top[of _ stk t0]) simp
    ultimately show "\<exists>s'. update_current_data kvs s0 = Inr s' \<and>
        current_data s' = Inr (PyDict (d ++ kvs))" by blast
    show "\<exists>r cs. trace_log (snd (exit isoformat exc cc s0)) = trace_log s0 @ [(r, cs)] \<and>
              r data_key = Some (PyDict d) \<and> dom r = reserved_keys \<and>
              (cs \<noteq> [] \<longrightarrow> received (hd cs) = r)"
      by (rule ships[OF top])
  qed
  show "\<forall>p p' callers tnow thread_name.
            enrich (Some p) callers tnow thread_name s = Inr (Some p') \<longrightarrow>
              p' data_key = p data_key \<and>
              (\<forall>k. k \<notin> {file_key, line_key, function_key, thread_key, pid_key,
                         process_name_key, duration_key} \<longrightarrow> p' k = p k)"
  proof (intro allI impI)
    fix p p' callers tnow thread_name
    assume "enrich (Some p) callers tnow thread_name s = Inr (Some p')"
    from enrich_result[OF this] obtain dv where
      "p' = p(file_key \<mapsto> PyStr (f_filename ((enrich_frame # callers) ! 2)),
                         line_key \<mapsto> PyInt (f_line ((enrich_frame # callers) ! 2)),
                         function_key \<mapsto> PyStr (f_name ((enrich_frame # callers) ! 2)),
                         thread_key \<mapsto> PyStr thread_name,
                         pid_key \<mapsto> PyInt (pid s),
                         process_name_key \<mapsto> PyStr (process_name s),
                         duration_key \<mapsto> dv)" by blast
    then show "p' data_key = p data_key \<and>
              (\<forall>k. k \<notin> {file_key, line_key, function_key, thread_key, pid_key,
                         process_name_key, duration_key} \<longrightarrow> p' k = p k)"
      by simp
  qed
qed

theorem data_round_trip_witness:
  "\<exists>s1. updates [[''a'' \<mapsto> ''a'', ''b'' \<mapsto> ''b''], [''c'' \<mapsto> ''c'', ''d'' \<mapsto> ''d'']]
           (enter (open_ctx example_outer) example_tracer) = (None, s1) \<and>
        current_data s1 =
          Inr (PyDict [''a'' \<mapsto> ''a'', ''b'' \<mapsto> ''b'', ''c'' \<mapsto> ''c'', ''d'' \<mapsto> ''d'']) \<and>
        map (\<lambda>r. r data_key)
          (map fst (trace_log (snd (exit example_isoformat None (close_ctx example_outer) s1)))) =
          [Some (PyDict [''a'' \<mapsto> ''a'', ''b'' \<mapsto> ''b'', ''c'' \<mapsto> ''c'', ''d'' \<mapsto> ''d''])] \<and>
        map (\<lambda>r. r data_key)
          (custom (world (snd (exit example_isoformat None (close_ctx example_outer) s1)))) =
          [Some (PyDict [''a'' \<mapsto> ''a'', ''b'' \<mapsto> ''b'', ''c'' \<mapsto> ''c'', ''d'' \<mapsto> ''d''])] \<and>
        map dom
          (custom (world (snd (exit example_isoformat None (close_ctx example_outer) s1)))) =
          [reserved_keys]"
proof -
  let ?ws = "[[''a'' \<mapsto> ''a'', ''b'' \<mapsto> ''b''], [''c'' \<mapsto> ''c'', ''d'' \<mapsto> ''d'']] :: (string \<rightharpoonup> string) list"
  let ?d = "[''a'' \<mapsto> ''a'', ''b'' \<mapsto> ''b'', ''c'' \<mapsto> ''c'', ''d'' \<mapsto> ''d''] :: string \<rightharpoonup> string"
  let ?s0 = "enter (open_ctx example_outer) example_tracer"
  have wr: "written ?ws = ?d" by (simp add: written_def)
  have l0: "trace_log example_tracer = []" by (simp add: example_tracer_def)
  have A: "\<exists>s1. updates ?ws ?s0 = (None, s1) \<and>
         current_data s1 = Inr (PyDict ?d) \<and>
         (\<exists>r cs. trace_log (snd (exit example_isoformat None (close_ctx example_outer) s1)) =
                   [(r, cs)] \<and>
                 r data_key = Some (PyDict ?d) \<and>
                 dom r = reserved_keys \<and>
                 (cs \<noteq> [] \<longrightarrow> received (hd cs) = r))"
    using data_round_trip[of ?ws "open_ctx example_outer" example_tracer example_isoformat None
      "close_ctx example_outer"]
    unfolding wr l0 append_Nil by (rule conjunct1)
  then obtain s1 r cs where
    u: "updates ?ws ?s0 = (None, s1)" and
    cd: "current_data s1 = Inr (PyDict ?d)" and
    tl: "trace_log (snd (exit example_isoformat None (close_ctx example_outer) s1)) = [(r, cs)]" and
    rd: "r data_key = Some (PyDict ?d)"
    by (elim exE conjE) (rule that; assumption)
  have h0: "context_stack ?s0 =
      [] @ [[start_time_key \<mapsto> PyDatetime 0, data_key \<mapsto> PyDict Map.empty]]"
    by (simp add: enter_def example_tracer_def example_outer_def)
  let ?s1 = "?s0\<lparr>context_stack :=
       [] @ [[start_time_key \<mapsto> PyDatetime 0, data_key \<mapsto> PyDict (foldl (++) Map.empty ?ws)]]\<rparr>"
  have "updates ?ws ?s0 = (None, ?s1)" by (rule updates_top[OF h0])
  with u have s1: "s1 = ?s1" by simp
  have h1: "context_stack ?s1 =
      [] @ [[start_time_key \<mapsto> PyDatetime 0, data_key \<mapsto> PyDict ?d]]"
    by simp
  let ?R = "[start_time_key \<mapsto> PyStr (example_isoformat 0),
             data_key \<mapsto> PyDict ?d,
             file_key \<mapsto> PyStr (f_filename (ctx_caller (close_ctx example_outer))),
             line_key \<mapsto> PyInt (f_line (ctx_caller (close_ctx example_outer))),
             function_key \<mapsto> PyStr (f_name (ctx_caller (close_ctx example_outer))),
             thread_key \<mapsto> PyStr (ctx_thread (close_ctx example_outer)),
             pid_key \<mapsto> PyInt (pid ?s1),
             process_name_key \<mapsto> PyStr (process_name ?s1),
             duration_key \<mapsto> PyFloat (total_seconds (ctx_now (close_ctx example_outer) - 0))]"
  have f: "tracer_shippers (?s1\<lparr>context_stack := []\<rparr>) = [TracerInterface_trace, recording_shipper]"
     "world (?s1\<lparr>context_stack := []\<rparr>) = example_world"
    by (simp_all add: enter_def example_tracer_def)
  have tr: "trace (Some ?R) (?s1\<lparr>context_stack := []\<rparr>) =
      (None, ?s1\<lparr>context_stack := [], world := shipped_to_all [TracerInterface_trace, recording_shipper] ?R example_world,
             logger := logger (?s1\<lparr>context_stack := []\<rparr>) @ [NotImplementedError],
             trace_log := trace_log (?s1\<lparr>context_stack := []\<rparr>) @
                [(?R, [\<lparr>received = ?R, raised = Some NotImplementedError, left_as = ?R\<rparr>,
                       \<lparr>received = ?R, raised = None, left_as = ?R\<rparr>])]\<rparr>)"
    unfolding trace_def option.case f
    by (simp add: TracerInterface_trace_def recording_shipper_def)
  have cw: "custom (world (snd (exit example_isoformat None (close_ctx example_outer) ?s1))) = [?R]"
    unfolding exit_top[OF h1] tr
    by (simp add: TracerInterface_trace_def recording_shipper_def example_world_def)
  have "map (\<lambda>r. r data_key) [?R] = [Some (PyDict ?d)]" by simp
  moreover have "map dom [?R] = [reserved_keys]" by (simp only: list.map dom_shipped)
  ultimately show ?thesis
    using u cd tl rd cw unfolding s1 by (intro exI[of _ ?s1] conjI) simp_all
qed

text \<open>
  Claim C6. Right before dispatch \<open>start_time\<close> is the string that \<open>isoformat\<close> gives for
  the time the scope opened, and \<open>duration\<close> is a float: the seconds between that time and
  the clock reading at the close, which is not negative when the clock did not go back.
\<close>

theorem exit_formats_times:
  assumes "context_stack s = stk @ [[start_time_key \<mapsto> PyDatetime t0, data_key \<mapsto> PyDict d]]"
  shows "\<exists>r cs. trace_log (snd (exit isoformat exc c s)) = trace_log s @ [(r, cs)] \<and>
            r start_time_key = Some (PyStr (isoformat t0)) \<and>
            r duration_key = Some (PyFloat (total_seconds (ctx_now c - t0))) \<and>
            total_seconds (ctx_now c - t0) = (real_of_int (ctx_now c) - real_of_int t0) / 1000000 \<and>
            (t0 \<le> ctx_now c \<longrightarrow> 0 \<le> total_seconds (ctx_now c - t0))"
proof -
  from exit_ships[OF assms, of isoformat exc c] obtain cs where
    a: "trace_log (snd (exit isoformat exc c s)) =
           trace_log s @
           [([start_time_key \<mapsto> PyStr (isoformat t0),
              data_key \<mapsto> PyDict d,
              file_key \<mapsto> PyStr (f_filename (ctx_caller c)),
              line_key \<mapsto> PyInt (f_line (ctx_caller c)),
              function_key \<mapsto> PyStr (f_name (ctx_caller c)),
              thread_key \<mapsto> PyStr (ctx_thread c),
              pid_key \<mapsto> PyInt (pid s),
              process_name_key \<mapsto> PyStr (process_name s),
              duration_key \<mapsto> PyFloat (total_seconds (ctx_now c - t0))], cs)]"
    by blast
  have b: "total_seconds (ctx_now c - t0) = (real_of_int (ctx_now c) - real_of_int t0) / 1000000"
    by (simp add: total_seconds_def)
  have c: "t0 \<le> ctx_now c \<longrightarrow> 0 \<le> total_seconds (ctx_now c - t0)"
    by (simp add: total_seconds_def)
  show ?thesis using a b c by (intro exI conjI) (assumption, simp, simp, assumption, assumption)
qed

theorem exit_formats_times_witness:
  "context_stack example_open =
     [] @ [[start_time_key \<mapsto> PyDatetime 0, data_key \<mapsto> PyDict [''a'' \<mapsto> ''a'', ''b'' \<mapsto> ''b'']]] \<and>
   (\<exists>r cs. trace_log (snd (exit example_isoformat None (close_ctx example_outer) example_open)) =
              [(r, cs)] \<and>
            r start_time_key = Some (PyStr ''1970-01-01T00:00:00+00:00'') \<and>
            r duration_key = Some (PyFloat (5 / 2)))"
proof -
  have h: "context_stack example_open =
     [] @ [[start_time_key \<mapsto> PyDatetime 0, data_key \<mapsto> PyDict [''a'' \<mapsto> ''a'', ''b'' \<mapsto> ''b'']]]"
    by (simp add: example_open_def)
  have l: "trace_log example_open = []" by (simp add: example_open_def example_tracer_def)
  have n: "ctx_now (close_ctx example_outer) = 2500000" by (simp add: example_outer_def)
  have i: "example_isoformat 0 = ''1970-01-01T00:00:00+00:00''" by (simp add: example_isoformat_def)
  have t: "total_seconds (2500000 - 0) = 5 / 2" by (simp add: total_seconds_def)
  from exit_formats_times[OF h, of example_isoformat None "close_ctx example_outer"]
  show ?thesis unfolding l n i t using h by auto
qed

text \<open>
  Claim C7. When a scope closes on a tracer whose stack is not empty, nothing is raised out
  of \<open>__exit__\<close>: enrichment and conversion of a context that \<open>__enter__\<close> made cannot fail,
  and every error (\<open>Exception\<close>) a shipper raises ends on the tracer's logger, in the order
  raised.
\<close>

theorem exit_raises_nothing:
  assumes "context_stack s = stk @ [[start_time_key \<mapsto> PyDatetime t0, data_key \<mapsto> PyDict d]]"
      and "list_all raises_only_Exception (tracer_shippers s)"
  shows "\<exists>s' r cs. exit isoformat exc c s = (Inr False, s') \<and>
           trace_log s' = trace_log s @ [(r, cs)] \<and>
           length cs = length (tracer_shippers s) \<and>
           logger s' = logger s @ [e. Some e \<leftarrow> map raised cs]"
proof -
  let ?R = "[start_time_key \<mapsto> PyStr (isoformat t0),
              data_key \<mapsto> PyDict d,
              file_key \<mapsto> PyStr (f_filename (ctx_caller c)),
              line_key \<mapsto> PyInt (f_line (ctx_caller c)),
              function_key \<mapsto> PyStr (f_name (ctx_caller c)),
              thread_key \<mapsto> PyStr (ctx_thread c),
              pid_key \<mapsto> PyInt (pid s),
              process_name_key \<mapsto> PyStr (process_name s),
              duration_key \<mapsto> PyFloat (total_seconds (ctx_now c - t0))]"
  let ?s1 = "s\<lparr>context_stack := stk\<rparr>"
  have ok: "\<forall>sh \<in> set (tracer_shippers ?s1). raises_only_Exception sh"
    using assms(2) by (simp add: list_all_iff)
  from trace_Some_ok[OF ok, of ?R] obtain w' cs where
    tr: "trace (Some ?R) ?s1 =
            (None, ?s1\<lparr>world := w', logger := logger ?s1 @ [e. Some e \<leftarrow> map raised cs],
                      trace_log := trace_log ?s1 @ [(?R, cs)]\<rparr>)" and
    n: "length cs = length (tracer_shippers ?s1)"
    by blast
  let ?s' = "?s1\<lparr>world := w', logger := logger ?s1 @ [e. Some e \<leftarrow> map raised cs],
                      trace_log := trace_log ?s1 @ [(?R, cs)]\<rparr>"
  have "exit isoformat exc c s = (Inr False, ?s')"
    unfolding exit_top[OF assms(1)] tr by simp
  then show ?thesis using n by (intro exI[of _ ?s'] exI[of _ ?R] exI[of _ cs]) simp
qed

theorem exit_raises_nothing_witness:
  "context_stack example_open =
     [] @ [[start_time_key \<mapsto> PyDatetime 0, data_key \<mapsto> PyDict [''a'' \<mapsto> ''a'', ''b'' \<mapsto> ''b'']]] \<and>
   list_all raises_only_Exception (tracer_shippers example_open) \<and>
   (\<exists>s'. exit example_isoformat None (close_ctx example_outer) example_open = (Inr False, s') \<and>
        map (map raised \<circ> snd) (trace_log s') = [[Some NotImplementedError, None]] \<and>
        logger s' = [NotImplementedError])"
proof -
  have h: "context_stack example_open =
     [] @ [[start_time_key \<mapsto> PyDatetime 0, data_key \<mapsto> PyDict [''a'' \<mapsto> ''a'', ''b'' \<mapsto> ''b'']]]"
    by (simp add: example_open_def)
  have ok: "list_all raises_only_Exception (tracer_shippers example_open)"
    using example_shippers_ok by (simp add: example_open_def)
  from exit_raises_nothing[OF h ok, of example_isoformat None "close_ctx example_outer"]
  obtain s' where
    e: "exit example_isoformat None (close_ctx example_outer) example_open = (Inr False, s')"
    by blast
  have lg: "logger (snd (exit example_isoformat None (close_ctx example_outer) example_open)) =
      [NotImplementedError]"
    unfolding exit_top[OF h]
    by (simp add: trace_def example_open_def example_tracer_def TracerInterface_trace_def
          recording_shipper_def)
  have tl: "map (map raised \<circ> snd)
       (trace_log (snd (exit example_isoformat None (close_ctx example_outer) example_open))) =
      [[Some NotImplementedError, None]]"
    unfolding exit_top[OF h]
    by (simp add: trace_def example_open_def example_tracer_def TracerInterface_trace_def
          recording_shipper_def)
  show ?thesis using h ok e lg tl by simp
qed

text \<open>
  Claim C8. \<open>__exit__\<close> never returns a true value, so it never suppresses an exception.
  When the block of a \<open>with\<close> statement raises, \<open>__exit__\<close> still pops the context, enriches
  and converts it and hands it to every shipper (the first receives the finished dict, and
  the world is the one that calling every shipper with it makes), returns \<open>False\<close>, and the
  block's exception leaves the statement.
\<close>

theorem exit_never_suppresses:
  assumes "body (enter co s) = (Some e, s1)"
      and "context_stack s1 = stk @ [[start_time_key \<mapsto> PyDatetime t0, data_key \<mapsto> PyDict d]]"
      and "list_all raises_only_Exception (tracer_shippers s1)"
  shows "(\<exists>s2 r cs. exit isoformat (Some e) cc s1 = (Inr False, s2) \<and>
            with_stmt isoformat co cc body s = (Some e, s2) \<and>
            context_stack s2 = stk \<and>
            trace_log s2 = trace_log s1 @ [(r, cs)] \<and>
            length cs = length (tracer_shippers s1) \<and>
            delivered (tracer_shippers s1) (r, cs) \<and>
            world s2 = shipped_to_all (tracer_shippers s1) r (world s1) \<and>
            r = [start_time_key \<mapsto> PyStr (isoformat t0),
                 data_key \<mapsto> PyDict d,
                 file_key \<mapsto> PyStr (f_filename (ctx_caller cc)),
                 line_key \<mapsto> PyInt (f_line (ctx_caller cc)),
                 function_key \<mapsto> PyStr (f_name (ctx_caller cc)),
                 thread_key \<mapsto> PyStr (ctx_thread cc),
                 pid_key \<mapsto> PyInt (pid s1),
                 process_name_key \<mapsto> PyStr (process_name s1),
                 duration_key \<mapsto> PyFloat (total_seconds (ctx_now cc - t0))] \<and>
            dom r = reserved_keys \<and>
            r data_key = Some (PyDict d) \<and>
            r start_time_key = Some (PyStr (isoformat t0)) \<and>
            r duration_key = Some (PyFloat (total_seconds (ctx_now cc - t0)))) \<and>
         (\<forall>exc' c' s'. fst (exit isoformat exc' c' s') \<noteq> Inr True)"
proof
  let ?R = "[start_time_key \<mapsto> PyStr (isoformat t0),
              data_key \<mapsto> PyDict d,
              file_key \<mapsto> PyStr (f_filename (ctx_caller cc)),
              line_key \<mapsto> PyInt (f_line (ctx_caller cc)),
              function_key \<mapsto> PyStr (f_name (ctx_caller cc)),
              thread_key \<mapsto> PyStr (ctx_thread cc),
              pid_key \<mapsto> PyInt (pid s1),
              process_name_key \<mapsto> PyStr (process_name s1),
              duration_key \<mapsto> PyFloat (total_seconds (ctx_now cc - t0))]"
  let ?p = "s1\<lparr>context_stack := stk\<rparr>"
  have ok: "\<forall>sh \<in> set (tracer_shippers ?p). raises_only_Exception sh"
    using assms(3) by (simp add: list_all_iff)
  from trace_Some_ok[OF ok, of ?R] obtain w' cs where
    tr: "trace (Some ?R) ?p =
            (None, ?p\<lparr>world := w', logger := logger ?p @ [e. Some e \<leftarrow> map raised cs],
                      trace_log := trace_log ?p @ [(?R, cs)]\<rparr>)" and
    n: "length cs = length (tracer_shippers ?p)" and
    dl: "delivered (tracer_shippers ?p) (?R, cs)" and
    ww: "w' = shipped_to_all (tracer_shippers ?p) ?R (world ?p)"
    by blast
  let ?s2 = "?p\<lparr>world := w', logger := logger ?p @ [e. Some e \<leftarrow> map raised cs],
                      trace_log := trace_log ?p @ [(?R, cs)]\<rparr>"
  have ex: "exit isoformat (Some e) cc s1 = (Inr False, ?s2)"
    unfolding exit_top[OF assms(2)] tr by simp
  have ws: "with_stmt isoformat co cc body s = (Some e, ?s2)"
    unfolding with_stmt_def assms(1) by (simp add: ex)
  show "\<exists>s2 r cs. exit isoformat (Some e) cc s1 = (Inr False, s2) \<and>
            with_stmt isoformat co cc body s = (Some e, s2) \<and>
            context_stack s2 = stk \<and>
            trace_log s2 = trace_log s1 @ [(r, cs)] \<and>
            length cs = length (tracer_shippers s1) \<and>
            delivered (tracer_shippers s1) (r, cs) \<and>
            world s2 = shipped_to_all (tracer_shippers s1) r (world s1) \<and>
            r = ?R \<and>
            dom r = reserved_keys \<and>
            r data_key = Some (PyDict d) \<and>
            r start_time_key = Some (PyStr (isoformat t0)) \<and>
            r duration_key = Some (PyFloat (total_seconds (ctx_now cc - t0)))"
  proof (intro exI[of _ ?s2] exI[of _ ?R] exI[of _ cs] conjI)
    show "exit isoformat (Some e) cc s1 = (Inr False, ?s2)" by (rule ex)
    show "with_stmt isoformat co cc body s = (Some e, ?s2)" by (rule ws)
    show "context_stack ?s2 = stk" by simp
    show "trace_log ?s2 = trace_log s1 @ [(?R, cs)]" by simp
    show "length cs = length (tracer_shippers s1)" using n by simp
    show "delivered (tracer_shippers s1) (?R, cs)" using dl by simp
    show "world ?s2 = shipped_to_all (tracer_shippers s1) ?R (world s1)" using ww by simp
    show "?R = ?R" ..
    show "dom ?R = reserved_keys" by (rule dom_shipped)
    show "?R data_key = Some (PyDict d)" by simp
    show "?R start_time_key = Some (PyStr (isoformat t0))" by simp
    show "?R duration_key = Some (PyFloat (total_seconds (ctx_now cc - t0)))" by simp
  qed
next
  show "\<forall>exc' c' s'. fst (exit isoformat exc' c' s') \<noteq> Inr True"
    by (simp add: exit_not_True)
qed

theorem exit_never_suppresses_witness:
  "raising_body (enter (open_ctx example_outer) example_tracer) =
     (Some (OtherException ''boom''), enter (open_ctx example_outer) example_tracer) \<and>
   context_stack (enter (open_ctx example_outer) example_tracer) =
     [] @ [[start_time_key \<mapsto> PyDatetime 0, data_key \<mapsto> PyDict Map.empty]] \<and>
   list_all raises_only_Exception (tracer_shippers (enter (open_ctx example_outer) example_tracer)) \<and>
   (\<exists>s2 r. with_stmt example_isoformat (open_ctx example_outer) (close_ctx example_outer)
            raising_body example_tracer = (Some (OtherException ''boom''), s2) \<and>
         context_stack s2 = [] \<and>
         map fst (trace_log s2) = [r] \<and>
         custom (world s2) = [r] \<and>
         r = [start_time_key \<mapsto> PyStr ''1970-01-01T00:00:00+00:00'',
              data_key \<mapsto> PyDict Map.empty,
              file_key \<mapsto> PyStr ''example.py'',
              line_key \<mapsto> PyInt 12,
              function_key \<mapsto> PyStr ''test'',
              thread_key \<mapsto> PyStr ''MainThread'',
              pid_key \<mapsto> PyInt 4242,
              process_name_key \<mapsto> PyStr ''python example.py'',
              duration_key \<mapsto> PyFloat (5 / 2)])"
proof -
  let ?s1 = "enter (open_ctx example_outer) example_tracer"
  let ?r = "[start_time_key \<mapsto> PyStr ''1970-01-01T00:00:00+00:00'',
              data_key \<mapsto> PyDict Map.empty,
              file_key \<mapsto> PyStr ''example.py'',
              line_key \<mapsto> PyInt 12,
              function_key \<mapsto> PyStr ''test'',
              thread_key \<mapsto> PyStr ''MainThread'',
              pid_key \<mapsto> PyInt 4242,
              process_name_key \<mapsto> PyStr ''python example.py'',
              duration_key \<mapsto> PyFloat (5 / 2)] :: string payload"
  have b: "raising_body ?s1 = (Some (OtherException ''boom''), ?s1)"
    by (simp add: raising_body_def)
  have h: "context_stack ?s1 = [] @ [[start_time_key \<mapsto> PyDatetime 0, data_key \<mapsto> PyDict Map.empty]]"
    by (simp add: enter_def example_tracer_def example_outer_def)
  have ok: "list_all raises_only_Exception (tracer_shippers ?s1)"
    using example_shippers_ok by (simp add: enter_def)
  have f: "trace_log ?s1 = []" "world ?s1 = example_world"
      "tracer_shippers ?s1 = [TracerInterface_trace, recording_shipper]"
      "pid ?s1 = 4242" "process_name ?s1 = ''python example.py''"
    by (simp_all add: enter_def example_tracer_def)
  have c: "f_filename (ctx_caller (close_ctx example_outer)) = ''example.py''"
      "f_line (ctx_caller (close_ctx example_outer)) = 12"
      "f_name (ctx_caller (close_ctx example_outer)) = ''test''"
      "ctx_thread (close_ctx example_outer) = ''MainThread''"
      "ctx_now (close_ctx example_outer) = 2500000"
    by (simp_all add: example_outer_def)
  have i: "example_isoformat 0 = ''1970-01-01T00:00:00+00:00''" by (simp add: example_isoformat_def)
  have ts: "total_seconds (2500000 - 0) = 5 / 2" by (simp add: total_seconds_def)
  have cw: "custom (shipped_to_all [TracerInterface_trace, recording_shipper] ?r example_world) = [?r]"
    by (simp add: TracerInterface_trace_def recording_shipper_def example_world_def)
  from exit_never_suppresses[where body = raising_body and co = "open_ctx example_outer"
      and s = example_tracer and isoformat = example_isoformat and cc = "close_ctx example_outer",
      OF b h ok]
  obtain s2 r cs where
    a: "with_stmt example_isoformat (open_ctx example_outer) (close_ctx example_outer)
            raising_body example_tracer = (Some (OtherException ''boom''), s2)"
       "context_stack s2 = []" "trace_log s2 = [(r, cs)]" and
    w: "world s2 = shipped_to_all [TracerInterface_trace, recording_shipper] r example_world" and
    r: "r = ?r"
    unfolding f c i ts append_Nil by blast
  have "custom (world s2) = [r]" unfolding w r by (rule cw)
  then show ?thesis using a r b h ok by (intro conjI exI[of _ s2] exI[of _ r]) simp_all
qed

text \<open>
  Claim C9. The console sink's \<open>trace\<close> with no payload (\<open>None\<close>, the default) does nothing:
  it raises nothing and leaves standard output, the flush count and the logger as they were.
\<close>

theorem console_trace_None:
  "ConsoleTracer_trace json_dumps None w = (None, w)"
  by (simp add: ConsoleTracer_trace_def)

text \<open>
  Claim C10. A dispatch hands the shippers one dict, with no copy in between: the first
  shipper called receives the payload of the dispatch, each later one receives the dict as
  the shipper before it left it, and the calls are those of the shippers in the order of the
  list.
\<close>

theorem trace_passes_same_dict:
  "\<exists>cs. trace_log (snd (trace (Some p) s)) = trace_log s @ [(p, cs)] \<and>
         length cs \<le> length (tracer_shippers s) \<and>
         (\<forall>i<length cs.
            received (cs ! i) = (if i = 0 then p else left_as (cs ! (i - 1))) \<and>
            (\<exists>w1 w2. (tracer_shippers s ! i) (received (cs ! i)) w1 =
                 (raised (cs ! i), left_as (cs ! i), w2)))"
proof -
  from trace_run[of s p] obtain r p' w' lg cs where
    tl: "trace_loop (tracer_shippers s) p (world s) (logger s) [] = (r, p', w', lg, cs)" and
    tr: "trace (Some p) s = (r, s\<lparr>world := w', logger := lg, trace_log := trace_log s @ [(p, cs)]\<rparr>)"
    by blast
  have "trace_log (snd (trace (Some p) s)) = trace_log s @ [(p, cs)]"
    unfolding tr by simp
  with trace_loop_calls0[OF tl] show ?thesis by blast
qed

theorem trace_passes_same_dict_witness:
  "\<exists>cs. trace_log (snd (trace (Some [data_key \<mapsto> PyDict Map.empty]) example_stamping)) =
           [([data_key \<mapsto> PyDict Map.empty], cs)] \<and>
        length cs = 2 \<and>
        received (cs ! 0) = [data_key \<mapsto> PyDict Map.empty] \<and>
        left_as (cs ! 0) = [data_key \<mapsto> PyDict Map.empty, ''seen'' \<mapsto> PyInt 1] \<and>
        received (cs ! 1) = left_as (cs ! 0) \<and>
        custom (world (snd (trace (Some [data_key \<mapsto> PyDict Map.empty]) example_stamping))) =
           [[data_key \<mapsto> PyDict Map.empty, ''seen'' \<mapsto> PyInt 1]]"
proof -
  let ?p = "[data_key \<mapsto> PyDict Map.empty] :: string payload"
  let ?cs = "[\<lparr>received = ?p, raised = None, left_as = ?p(''seen'' \<mapsto> PyInt 1)\<rparr>,
              \<lparr>received = ?p(''seen'' \<mapsto> PyInt 1), raised = None, left_as = ?p(''seen'' \<mapsto> PyInt 1)\<rparr>]"
  have l0: "trace_log example_stamping = []"
    by (simp add: example_stamping_def example_tracer_def)
  have ev: "trace_log (snd (trace (Some ?p) example_stamping)) = [(?p, ?cs)]"
    by (simp add: trace_def example_stamping_def example_tracer_def stamping_shipper_def
          recording_shipper_def)
  have cu: "custom (world (snd (trace (Some ?p) example_stamping))) = [?p(''seen'' \<mapsto> PyInt 1)]"
    by (simp add: trace_def example_stamping_def example_tracer_def stamping_shipper_def
          recording_shipper_def example_world_def)
  from trace_passes_same_dict[of ?p example_stamping] obtain cs where
    a: "trace_log (snd (trace (Some ?p) example_stamping)) = trace_log example_stamping @ [(?p, cs)]" and
    b: "\<forall>i<length cs. received (cs ! i) = (if i = 0 then ?p else left_as (cs ! (i - 1)))"
    by blast
  have cs: "cs = ?cs" using a ev l0 by simp
  have one: "(1::nat) < length cs" unfolding cs by simp
  have chain: "received (cs ! 1) = left_as (cs ! 0)" using b[rule_format, OF one] by simp
  show ?thesis
  proof (intro exI[of _ cs] conjI)
    show "trace_log (snd (trace (Some ?p) example_stamping)) = [(?p, cs)]" using a l0 by simp
    show "length cs = 2" unfolding cs by simp
    show "received (cs ! 0) = ?p" unfolding cs by simp
    show "left_as (cs ! 0) = ?p(''seen'' \<mapsto> PyInt 1)" unfolding cs by simp
    show "received (cs ! 1) = left_as (cs ! 0)" by (rule chain)
    show "custom (world (snd (trace (Some ?p) example_stamping))) = [?p(''seen'' \<mapsto> PyInt 1)]"
      by (rule cu)
  qed
qed

end
